theory Spec2Isabelle
  imports Complex_Main
begin

section \<open>GBVISoftcoreParameters: the parameter container of the GB/VI softcore model\<close>

text \<open>
  The development embeds \<^verbatim>\<open>GBVISoftcoreParameters.cpp\<close> (with its header
  \<^verbatim>\<open>GBVISoftcoreParameters.h\<close>). Conventions of the embedding:

  \<^item> \<^verbatim>\<open>RealOpenMM\<close> (float or double, fixed at build time) is the type \<open>real\<close>:
    arithmetic is exact, rounding is outside the model.
  \<^item> \<^verbatim>\<open>int\<close> is the type \<open>int\<close>. The integers that occur are ownership flags, atom
    counts, loop counters and vector lengths; the code compares them and counts up to
    them, and nothing is added or multiplied, so no wrap-around is written out. The cast
    \<^verbatim>\<open>(int) values.size()\<close> is the length of the vector (vectors with more elements
    than an \<^verbatim>\<open>int\<close> can count are outside the model).
  \<^item> \<^verbatim>\<open>RealOpenMM*\<close> is an address or \<^verbatim>\<open>NULL\<close>; arrays live in an explicit store.
  \<^item> An array element or a member that has not been written yet holds no value
    (\<open>None\<close>): \<^verbatim>\<open>new RealOpenMM[n]\<close> does not initialise its elements, and the
    constructor leaves \<^verbatim>\<open>cutoffDistance\<close> and \<^verbatim>\<open>periodicBoxSize\<close> unset.
  \<^item> \<^verbatim>\<open>assert\<close> is compiled in (no \<^verbatim>\<open>NDEBUG\<close>): a failed assertion ends the run
    with an error value.
  \<^item> The overloads taking \<^verbatim>\<open>float*\<close> are guarded by \<^verbatim>\<open>#if RealOpenMMType == 0\<close>
    and are not part of the compiled unit; the \<^verbatim>\<open>UseGromacsMalloc\<close> branch of the
    destructor is disabled (its \<^verbatim>\<open>#define\<close> is commented out).
\<close>

subsection \<open>The store of arrays\<close>

type_synonym addr = nat

text \<open>A pointer: \<open>None\<close> is \<^verbatim>\<open>NULL\<close>.\<close>
type_synonym ptr = "addr option"

text \<open>An array element: \<open>None\<close> is an indeterminate (never written) value.\<close>
type_synonym cell = "real option"

text \<open>
  \<open>blocks\<close> maps the address of every live array to its elements; \<open>fresh\<close> is the
  address the next \<^verbatim>\<open>new[]\<close> returns. Three logs make the effects observable:
  \<open>freed\<close> lists the addresses passed to \<^verbatim>\<open>delete[]\<close> in call order, \<open>written\<close>
  lists every element store as (array, index), and \<open>oob\<close> lists those element stores
  that fell outside the array they were aimed at (undefined behaviour in C++; the model
  records the access and leaves the store's arrays as they were).
\<close>
record store =
  blocks :: "addr \<Rightarrow> cell list option"
  fresh :: addr
  freed :: "addr list"
  written :: "(addr \<times> nat) list"
  oob :: "(addr \<times> nat) list"

datatype error =
    AssertionFailure string
  | BadArrayNewLength
  | IndeterminateRead

text \<open>\<^verbatim>\<open>new RealOpenMM[n]\<close>: a negative length throws; the elements are not initialised.\<close>
definition new_array :: "int \<Rightarrow> store \<Rightarrow> error + addr \<times> store" where
  "new_array n h =
     (if n < 0 then Inl BadArrayNewLength
      else Inr (fresh h,
                h\<lparr>blocks := (blocks h)(fresh h \<mapsto> replicate (nat n) None),
                  fresh := Suc (fresh h)\<rparr>))"

text \<open>\<^verbatim>\<open>delete[] p\<close>: nothing happens for \<^verbatim>\<open>NULL\<close>; otherwise the array is gone.\<close>
definition delete_array :: "ptr \<Rightarrow> store \<Rightarrow> store" where
  "delete_array p h =
     (case p of
        None \<Rightarrow> h
      | Some a \<Rightarrow> h\<lparr>blocks := (blocks h)(a := None), freed := freed h @ [a]\<rparr>)"

text \<open>\<^verbatim>\<open>a[i] = v\<close>.\<close>
definition store_elem :: "addr \<Rightarrow> nat \<Rightarrow> real \<Rightarrow> store \<Rightarrow> store" where
  "store_elem a i v h =
     (case blocks h a of
        Some b \<Rightarrow>
          if i < length b
          then h\<lparr>blocks := (blocks h)(a \<mapsto> b[i := Some v]), written := written h @ [(a, i)]\<rparr>
          else h\<lparr>written := written h @ [(a, i)], oob := oob h @ [(a, i)]\<rparr>
      | None \<Rightarrow> h\<lparr>written := written h @ [(a, i)], oob := oob h @ [(a, i)]\<rparr>)"

text \<open>
  \<^verbatim>\<open>memset( a, 0, sizeof( RealOpenMM )*n )\<close>: the first \<open>n\<close> elements become \<open>0.0\<close>
  (all bits zero), one element after the other.
\<close>
function memset_zero :: "addr \<Rightarrow> nat \<Rightarrow> nat \<Rightarrow> store \<Rightarrow> store" where
  "memset_zero a n ii h =
     (if ii < n then memset_zero a n (Suc ii) (store_elem a ii 0 h) else h)"
  by pat_completeness auto
termination
  by (relation "measure (\<lambda>(a, n, ii, h). n - ii)") auto

subsection \<open>The container\<close>

datatype BornRadiusScalingSoftcoreMethod = NoScaling | Tanh | QuinticSpline

text \<open>
  The first three fields belong to the base class \<^verbatim>\<open>ImplicitSolventParameters\<close>,
  the others are the members declared in \<^verbatim>\<open>GBVISoftcoreParameters.h\<close> (without the
  leading underscore). The ownership flags are \<^verbatim>\<open>int\<close>s, as declared;
  \<^verbatim>\<open>periodicBoxSize[3]\<close> is a triple.
\<close>
record GBVISoftcoreParameters =
  numberOfAtoms :: int
  soluteDielectric :: real
  solventDielectric :: real
  ownScaledRadii :: int
  scaledRadii :: ptr
  ownGammaParameters :: int
  gammaParameters :: ptr
  ownBornRadiusScaleFactors :: int
  bornRadiusScaleFactors :: ptr
  cutoff :: bool
  periodic :: bool
  periodicBoxSize :: "cell \<times> cell \<times> cell"
  cutoffDistance :: cell
  bornRadiusScalingSoftcoreMethod :: BornRadiusScalingSoftcoreMethod
  quinticLowerLimitFactor :: real
  quinticUpperBornRadiusLimit :: real
  quinticUpperSplineLimit :: real

text \<open>
  Modelled from the spec: the accessors of the external base object
  (\<^verbatim>\<open>ImplicitSolventParameters\<close>, whose source is not part of this unit), which the
  spec describes as read-only access to the atom count and the two dielectric constants.
\<close>
definition getNumberOfAtoms :: "GBVISoftcoreParameters \<Rightarrow> int" where
  "getNumberOfAtoms s = numberOfAtoms s"

definition getSoluteDielectric :: "GBVISoftcoreParameters \<Rightarrow> real" where
  "getSoluteDielectric s = soluteDielectric s"

definition getSolventDielectric :: "GBVISoftcoreParameters \<Rightarrow> real" where
  "getSolventDielectric s = solventDielectric s"

text \<open>
  Modelled from the spec: the macro \<^verbatim>\<open>POW\<close> (defined with the numeric type, outside
  this unit); the spec reads \<^verbatim>\<open>POW( x, -3.0 )\<close> as \<open>x\<close> to the power \<open>-3\<close>. The real
  power \<open>powr\<close> is that function for a positive base.
\<close>
definition POW :: "real \<Rightarrow> real \<Rightarrow> real" where
  "POW x y = x powr y"

subsection \<open>Switching-function configuration\<close>

definition getQuinticLowerLimitFactor :: "GBVISoftcoreParameters \<Rightarrow> real" where
  "getQuinticLowerLimitFactor s = quinticLowerLimitFactor s"

definition setQuinticLowerLimitFactor ::
  "real \<Rightarrow> GBVISoftcoreParameters \<Rightarrow> GBVISoftcoreParameters" where
  "setQuinticLowerLimitFactor v s = s\<lparr>quinticLowerLimitFactor := v\<rparr>"

definition getQuinticUpperBornRadiusLimit :: "GBVISoftcoreParameters \<Rightarrow> real" where
  "getQuinticUpperBornRadiusLimit s = quinticUpperBornRadiusLimit s"

definition setQuinticUpperBornRadiusLimit ::
  "real \<Rightarrow> GBVISoftcoreParameters \<Rightarrow> GBVISoftcoreParameters" where
  "setQuinticUpperBornRadiusLimit v s =
     (let s1 = s\<lparr>quinticUpperBornRadiusLimit := v\<rparr>
      in s1\<lparr>quinticUpperSplineLimit := POW (quinticUpperBornRadiusLimit s1) (- 3)\<rparr>)"

definition getQuinticUpperSplineLimit :: "GBVISoftcoreParameters \<Rightarrow> real" where
  "getQuinticUpperSplineLimit s = quinticUpperSplineLimit s"

definition getBornRadiusScalingSoftcoreMethod ::
  "GBVISoftcoreParameters \<Rightarrow> BornRadiusScalingSoftcoreMethod" where
  "getBornRadiusScalingSoftcoreMethod s = bornRadiusScalingSoftcoreMethod s"

definition setBornRadiusScalingSoftcoreMethod ::
  "BornRadiusScalingSoftcoreMethod \<Rightarrow> GBVISoftcoreParameters \<Rightarrow> GBVISoftcoreParameters" where
  "setBornRadiusScalingSoftcoreMethod m s = s\<lparr>bornRadiusScalingSoftcoreMethod := m\<rparr>"

subsection \<open>Construction\<close>

text \<open>
  The base-class constructor stores the atom count; the dielectric constants it sets are
  not visible in this unit and are parameters here. The member initialisers clear
  \<open>cutoff\<close> and \<open>periodic\<close>; the body clears the three slots, selects \<open>NoScaling\<close>,
  sets the lower limit factor and calls \<open>setQuinticUpperBornRadiusLimit 5\<close>, which
  overwrites the two limits (their \<open>0\<close> below is never read).
\<close>
definition new_GBVISoftcoreParameters ::
  "int \<Rightarrow> real \<Rightarrow> real \<Rightarrow> GBVISoftcoreParameters" where
  "new_GBVISoftcoreParameters n eps_solute eps_solvent =
     setQuinticUpperBornRadiusLimit 5
       \<lparr>numberOfAtoms = n,
        soluteDielectric = eps_solute,
        solventDielectric = eps_solvent,
        ownScaledRadii = 0,
        scaledRadii = None,
        ownGammaParameters = 0,
        gammaParameters = None,
        ownBornRadiusScaleFactors = 0,
        bornRadiusScaleFactors = None,
        cutoff = False,
        periodic = False,
        periodicBoxSize = (None, None, None),
        cutoffDistance = None,
        bornRadiusScalingSoftcoreMethod = NoScaling,
        quinticLowerLimitFactor = 0.8,
        quinticUpperBornRadiusLimit = 0,
        quinticUpperSplineLimit = 0\<rparr>"

subsection \<open>Cutoff and periodic boundary conditions\<close>

definition setUseCutoff :: "real \<Rightarrow> GBVISoftcoreParameters \<Rightarrow> GBVISoftcoreParameters" where
  "setUseCutoff distance s = s\<lparr>cutoff := True, cutoffDistance := Some distance\<rparr>"

definition getUseCutoff :: "GBVISoftcoreParameters \<Rightarrow> bool" where
  "getUseCutoff s = cutoff s"

definition getCutoffDistance :: "GBVISoftcoreParameters \<Rightarrow> cell" where
  "getCutoffDistance s = cutoffDistance s"

text \<open>
  \<open>boxSize\<close> is the caller's array (a function of the index), read at 0, 1 and 2. The four assertions
  are checked in the order of the source; \<open>cutoffDistance\<close> is read only once the first
  one has passed.
\<close>
definition setPeriodic ::
  "(nat \<Rightarrow> real) \<Rightarrow> GBVISoftcoreParameters \<Rightarrow> error + GBVISoftcoreParameters" where
  "setPeriodic boxSize s =
     (if \<not> cutoff s then Inl (AssertionFailure ''cutoff'')
      else case cutoffDistance s of
        None \<Rightarrow> Inl IndeterminateRead
      | Some d \<Rightarrow>
          if \<not> boxSize 0 \<ge> 2 * d then Inl (AssertionFailure ''boxSize[0] >= 2.0*cutoffDistance'')
          else if \<not> boxSize 1 \<ge> 2 * d then Inl (AssertionFailure ''boxSize[1] >= 2.0*cutoffDistance'')
          else if \<not> boxSize 2 \<ge> 2 * d then Inl (AssertionFailure ''boxSize[2] >= 2.0*cutoffDistance'')
          else Inr (s\<lparr>periodic := True,
                      periodicBoxSize :=
                        (Some (boxSize 0), Some (boxSize 1), Some (boxSize 2))\<rparr>))"

definition getPeriodic :: "GBVISoftcoreParameters \<Rightarrow> bool" where
  "getPeriodic s = periodic s"

definition getPeriodicBox :: "GBVISoftcoreParameters \<Rightarrow> cell \<times> cell \<times> cell" where
  "getPeriodicBox s = periodicBoxSize s"

subsection \<open>The tau prefactor\<close>

definition getTau :: "GBVISoftcoreParameters \<Rightarrow> real" where
  "getTau s =
     (if getSoluteDielectric s \<noteq> 0 \<and> getSolventDielectric s \<noteq> 0
      then (1 / getSoluteDielectric s) - (1 / getSolventDielectric s)
      else 0)"

subsection \<open>The three array slots\<close>

text \<open>
  The copy loop of the three vector setters,
  \<^verbatim>\<open>for( int ii = 0; ii < (int) values.size(); ii++ ){ a[ii] = values[ii]; }\<close>,
  started at \<open>ii\<close> (a counter that is never negative, hence a \<open>nat\<close>). The bound is
  the length of the vector; the length of the array plays no part in it. The bound of
  the source is the length cast to \<^verbatim>\<open>int\<close>, which is the length itself as long as it
  is at most \<open>INT_MAX\<close>; the function describes the loop for such vectors, and what
  is stated about the number of stores below is stated for them.
\<close>
definition INT_MAX :: nat where
  "INT_MAX = 2147483647"

function copy_loop :: "addr \<Rightarrow> real list \<Rightarrow> nat \<Rightarrow> store \<Rightarrow> store" where
  "copy_loop a values ii h =
     (if ii < length values
      then copy_loop a values (Suc ii) (store_elem a ii (values ! ii) h)
      else h)"
  by pat_completeness auto
termination
  by (relation "measure (\<lambda>(a, values, ii, h). length values - ii)") auto

text \<open>
  \<^verbatim>\<open>getScaledRadii\<close>: a \<^verbatim>\<open>const\<close> method that casts the constness away to allocate the
  array on first use. The result is the returned pointer, the container and the store.
\<close>
definition getScaledRadii ::
  "GBVISoftcoreParameters \<Rightarrow> store \<Rightarrow> error + ptr \<times> GBVISoftcoreParameters \<times> store" where
  "getScaledRadii s h =
     (if scaledRadii s = None then
        (case new_array (getNumberOfAtoms s) h of
           Inl e \<Rightarrow> Inl e
         | Inr (a, h1) \<Rightarrow>
             let s1 = s\<lparr>scaledRadii := Some a\<rparr>;
                 s2 = s1\<lparr>ownScaledRadii := 1\<rparr>;
                 h2 = memset_zero a (nat (getNumberOfAtoms s2)) 0 h1
             in Inr (scaledRadii s2, s2, h2))
      else Inr (scaledRadii s, s, h))"

definition setOwnScaledRadii :: "int \<Rightarrow> GBVISoftcoreParameters \<Rightarrow> GBVISoftcoreParameters" where
  "setOwnScaledRadii flag s = s\<lparr>ownScaledRadii := flag\<rparr>"

text \<open>\<^verbatim>\<open>setScaledRadii( RealOpenMM* )\<close>.\<close>
definition setScaledRadii_ptr ::
  "ptr \<Rightarrow> GBVISoftcoreParameters \<Rightarrow> store \<Rightarrow> GBVISoftcoreParameters \<times> store" where
  "setScaledRadii_ptr p s h =
     (let (s1, h1) =
            (if ownScaledRadii s \<noteq> 0 \<and> scaledRadii s \<noteq> p
             then (s\<lparr>ownScaledRadii := 0\<rparr>, delete_array (scaledRadii s) h)
             else (s, h))
      in (s1\<lparr>scaledRadii := p\<rparr>, h1))"

text \<open>\<^verbatim>\<open>setScaledRadii( const RealOpenMMVector& )\<close>.\<close>
definition setScaledRadii_vec ::
  "real list \<Rightarrow> GBVISoftcoreParameters \<Rightarrow> store \<Rightarrow> error + GBVISoftcoreParameters \<times> store" where
  "setScaledRadii_vec values s h =
     (let h1 = (if ownScaledRadii s \<noteq> 0 \<and> scaledRadii s \<noteq> None
                then delete_array (scaledRadii s) h else h);
          s1 = s\<lparr>ownScaledRadii := 1\<rparr>
      in case new_array (getNumberOfAtoms s1) h1 of
           Inl e \<Rightarrow> Inl e
         | Inr (a, h2) \<Rightarrow> Inr (s1\<lparr>scaledRadii := Some a\<rparr>, copy_loop a values 0 h2))"

text \<open>
  \<^verbatim>\<open>getGammaParameters\<close>: a \<^verbatim>\<open>const\<close> method that casts the constness away to allocate the
  array on first use. The result is the returned pointer, the container and the store.
\<close>
definition getGammaParameters ::
  "GBVISoftcoreParameters \<Rightarrow> store \<Rightarrow> error + ptr \<times> GBVISoftcoreParameters \<times> store" where
  "getGammaParameters s h =
     (if gammaParameters s = None then
        (case new_array (getNumberOfAtoms s) h of
           Inl e \<Rightarrow> Inl e
         | Inr (a, h1) \<Rightarrow>
             let s1 = s\<lparr>gammaParameters := Some a\<rparr>;
                 s2 = s1\<lparr>ownGammaParameters := 1\<rparr>;
                 h2 = memset_zero a (nat (getNumberOfAtoms s2)) 0 h1
             in Inr (gammaParameters s2, s2, h2))
      else Inr (gammaParameters s, s, h))"

definition setOwnGammaParameters :: "int \<Rightarrow> GBVISoftcoreParameters \<Rightarrow> GBVISoftcoreParameters" where
  "setOwnGammaParameters flag s = s\<lparr>ownGammaParameters := flag\<rparr>"

text \<open>\<^verbatim>\<open>setGammaParameters( RealOpenMM* )\<close>.\<close>
definition setGammaParameters_ptr ::
  "ptr \<Rightarrow> GBVISoftcoreParameters \<Rightarrow> store \<Rightarrow> GBVISoftcoreParameters \<times> store" where
  "setGammaParameters_ptr p s h =
     (let (s1, h1) =
            (if ownGammaParameters s \<noteq> 0 \<and> gammaParameters s \<noteq> p
             then (s\<lparr>ownGammaParameters := 0\<rparr>, delete_array (gammaParameters s) h)
             else (s, h))
      in (s1\<lparr>gammaParameters := p\<rparr>, h1))"

text \<open>\<^verbatim>\<open>setGammaParameters( const RealOpenMMVector& )\<close>.\<close>
definition setGammaParameters_vec ::
  "real list \<Rightarrow> GBVISoftcoreParameters \<Rightarrow> store \<Rightarrow> error + GBVISoftcoreParameters \<times> store" where
  "setGammaParameters_vec values s h =
     (let h1 = (if ownGammaParameters s \<noteq> 0 \<and> gammaParameters s \<noteq> None
                then delete_array (gammaParameters s) h else h);
          s1 = s\<lparr>ownGammaParameters := 1\<rparr>
      in case new_array (getNumberOfAtoms s1) h1 of
           Inl e \<Rightarrow> Inl e
         | Inr (a, h2) \<Rightarrow> Inr (s1\<lparr>gammaParameters := Some a\<rparr>, copy_loop a values 0 h2))"

text \<open>
  \<^verbatim>\<open>getBornRadiusScaleFactors\<close>: a \<^verbatim>\<open>const\<close> method that casts the constness away to allocate the
  array on first use. The result is the returned pointer, the container and the store.
\<close>
definition getBornRadiusScaleFactors ::
  "GBVISoftcoreParameters \<Rightarrow> store \<Rightarrow> error + ptr \<times> GBVISoftcoreParameters \<times> store" where
  "getBornRadiusScaleFactors s h =
     (if bornRadiusScaleFactors s = None then
        (case new_array (getNumberOfAtoms s) h of
           Inl e \<Rightarrow> Inl e
         | Inr (a, h1) \<Rightarrow>
             let s1 = s\<lparr>bornRadiusScaleFactors := Some a\<rparr>;
                 s2 = s1\<lparr>ownBornRadiusScaleFactors := 1\<rparr>;
                 h2 = memset_zero a (nat (getNumberOfAtoms s2)) 0 h1
             in Inr (bornRadiusScaleFactors s2, s2, h2))
      else Inr (bornRadiusScaleFactors s, s, h))"

definition setOwnBornRadiusScaleFactors :: "int \<Rightarrow> GBVISoftcoreParameters \<Rightarrow> GBVISoftcoreParameters" where
  "setOwnBornRadiusScaleFactors flag s = s\<lparr>ownBornRadiusScaleFactors := flag\<rparr>"

text \<open>\<^verbatim>\<open>setBornRadiusScaleFactors( RealOpenMM* )\<close>.\<close>
definition setBornRadiusScaleFactors_ptr ::
  "ptr \<Rightarrow> GBVISoftcoreParameters \<Rightarrow> store \<Rightarrow> GBVISoftcoreParameters \<times> store" where
  "setBornRadiusScaleFactors_ptr p s h =
     (let (s1, h1) =
            (if ownBornRadiusScaleFactors s \<noteq> 0 \<and> bornRadiusScaleFactors s \<noteq> p
             then (s\<lparr>ownBornRadiusScaleFactors := 0\<rparr>, delete_array (bornRadiusScaleFactors s) h)
             else (s, h))
      in (s1\<lparr>bornRadiusScaleFactors := p\<rparr>, h1))"

text \<open>\<^verbatim>\<open>setBornRadiusScaleFactors( const RealOpenMMVector& )\<close>.\<close>
definition setBornRadiusScaleFactors_vec ::
  "real list \<Rightarrow> GBVISoftcoreParameters \<Rightarrow> store \<Rightarrow> error + GBVISoftcoreParameters \<times> store" where
  "setBornRadiusScaleFactors_vec values s h =
     (let h1 = (if ownBornRadiusScaleFactors s \<noteq> 0 \<and> bornRadiusScaleFactors s \<noteq> None
                then delete_array (bornRadiusScaleFactors s) h else h);
          s1 = s\<lparr>ownBornRadiusScaleFactors := 1\<rparr>
      in case new_array (getNumberOfAtoms s1) h1 of
           Inl e \<Rightarrow> Inl e
         | Inr (a, h2) \<Rightarrow> Inr (s1\<lparr>bornRadiusScaleFactors := Some a\<rparr>, copy_loop a values 0 h2))"

subsection \<open>Destruction\<close>

text \<open>
  The destructor, in the order of the source: the scaled radii are deleted under their
  ownership flag, the other two arrays are deleted without a test.
\<close>
definition delete_GBVISoftcoreParameters :: "GBVISoftcoreParameters \<Rightarrow> store \<Rightarrow> store" where
  "delete_GBVISoftcoreParameters s h =
     (let h1 = (if ownScaledRadii s \<noteq> 0 then delete_array (scaledRadii s) h else h);
          h2 = delete_array (gammaParameters s) h1;
          h3 = delete_array (bornRadiusScaleFactors s) h2
      in h3)"

subsection \<open>Sequences of calls\<close>

text \<open>
  The calls of the public interface that can change the container or the store. (The
  remaining methods are plain reads, or forward to the base class.)
\<close>
datatype method_call =
    SetQuinticLowerLimitFactor real
  | SetQuinticUpperBornRadiusLimit real
  | SetBornRadiusScalingSoftcoreMethod BornRadiusScalingSoftcoreMethod
  | GetScaledRadii
  | SetOwnScaledRadii int
  | SetScaledRadii_ptr ptr
  | SetScaledRadii_vec "real list"
  | GetGammaParameters
  | SetOwnGammaParameters int
  | SetGammaParameters_ptr ptr
  | SetGammaParameters_vec "real list"
  | GetBornRadiusScaleFactors
  | SetOwnBornRadiusScaleFactors int
  | SetBornRadiusScaleFactors_ptr ptr
  | SetBornRadiusScaleFactors_vec "real list"
  | SetUseCutoff real
  | SetPeriodic "nat \<Rightarrow> real"

text \<open>The result of a getter, with the returned pointer dropped.\<close>
definition discard_result ::
  "error + ptr \<times> GBVISoftcoreParameters \<times> store \<Rightarrow> error + GBVISoftcoreParameters \<times> store" where
  "discard_result r = (case r of Inl e \<Rightarrow> Inl e | Inr (p, s, h) \<Rightarrow> Inr (s, h))"

fun call ::
  "method_call \<Rightarrow> GBVISoftcoreParameters \<times> store \<Rightarrow> error + GBVISoftcoreParameters \<times> store" where
  "call (SetQuinticLowerLimitFactor v) (s, h) = Inr (setQuinticLowerLimitFactor v s, h)"
| "call (SetQuinticUpperBornRadiusLimit v) (s, h) = Inr (setQuinticUpperBornRadiusLimit v s, h)"
| "call (SetBornRadiusScalingSoftcoreMethod m) (s, h) =
     Inr (setBornRadiusScalingSoftcoreMethod m s, h)"
| "call GetScaledRadii (s, h) = discard_result (getScaledRadii s h)"
| "call (SetOwnScaledRadii f) (s, h) = Inr (setOwnScaledRadii f s, h)"
| "call (SetScaledRadii_ptr p) (s, h) = Inr (setScaledRadii_ptr p s h)"
| "call (SetScaledRadii_vec vs) (s, h) = setScaledRadii_vec vs s h"
| "call GetGammaParameters (s, h) = discard_result (getGammaParameters s h)"
| "call (SetOwnGammaParameters f) (s, h) = Inr (setOwnGammaParameters f s, h)"
| "call (SetGammaParameters_ptr p) (s, h) = Inr (setGammaParameters_ptr p s h)"
| "call (SetGammaParameters_vec vs) (s, h) = setGammaParameters_vec vs s h"
| "call GetBornRadiusScaleFactors (s, h) = discard_result (getBornRadiusScaleFactors s h)"
| "call (SetOwnBornRadiusScaleFactors f) (s, h) = Inr (setOwnBornRadiusScaleFactors f s, h)"
| "call (SetBornRadiusScaleFactors_ptr p) (s, h) = Inr (setBornRadiusScaleFactors_ptr p s h)"
| "call (SetBornRadiusScaleFactors_vec vs) (s, h) = setBornRadiusScaleFactors_vec vs s h"
| "call (SetUseCutoff d) (s, h) = Inr (setUseCutoff d s, h)"
| "call (SetPeriodic b) (s, h) =
     (case setPeriodic b s of Inl e \<Rightarrow> Inl e | Inr s' \<Rightarrow> Inr (s', h))"

text \<open>A sequence of calls ends at the first failed assertion or exception.\<close>
fun run ::
  "method_call list \<Rightarrow> GBVISoftcoreParameters \<times> store \<Rightarrow> error + GBVISoftcoreParameters \<times> store" where
  "run [] w = Inr w"
| "run (c # cs) w = (case call c w of Inl e \<Rightarrow> Inl e | Inr w' \<Rightarrow> run cs w')"

text \<open>A store without arrays, and one with four arrays that belong to a caller.\<close>
definition empty_store :: store where
  "empty_store = \<lparr>blocks = Map.empty, fresh = 0, freed = [], written = [], oob = []\<rparr>"

definition caller_store :: store where
  "caller_store =
     \<lparr>blocks = [0 \<mapsto> [Some 1, Some 2, Some 3], 1 \<mapsto> [Some 4, Some 5, Some 6],
                2 \<mapsto> [Some 7, Some 8, Some 9], 3 \<mapsto> [Some 10, Some 11, Some 12]],
      fresh = 4, freed = [], written = [], oob = []\<rparr>"

text \<open>
  A container for three atoms that was handed the caller's arrays 0, 1 and 2 and then
  told that it owns them.
\<close>
definition owning_example :: "error + GBVISoftcoreParameters \<times> store" where
  "owning_example =
     run [SetScaledRadii_ptr (Some 0), SetOwnScaledRadii 1,
          SetGammaParameters_ptr (Some 1), SetOwnGammaParameters 1,
          SetBornRadiusScaleFactors_ptr (Some 2), SetOwnBornRadiusScaleFactors 1]
         (new_GBVISoftcoreParameters 3 1 78, caller_store)"

text \<open>
  A container for three atoms that borrows the caller's array 0 as its gamma parameters
  (the ownership flag stays 0).
\<close>
definition borrowing_example :: "GBVISoftcoreParameters \<times> store" where
  "borrowing_example =
     setGammaParameters_ptr (Some 0) (new_GBVISoftcoreParameters 3 1 78) caller_store"

text \<open>
  A freshly constructed container for two atoms whose scaled radii are set from a
  vector of one element.
\<close>
definition shorter_example :: "error + GBVISoftcoreParameters \<times> store" where
  "shorter_example = setScaledRadii_vec [1] (new_GBVISoftcoreParameters 2 1 78) empty_store"

text \<open>
  A container whose cutoff is raised after the periodic box has been accepted, and one
  that is configured in the order cutoff, then box.
\<close>
definition late_cutoff_example :: "error + GBVISoftcoreParameters \<times> store" where
  "late_cutoff_example =
     run [SetUseCutoff 5, SetPeriodic ((!) [10, 10, 10]), SetUseCutoff 100]
         (new_GBVISoftcoreParameters 3 1 78, empty_store)"

definition settled_example :: "method_call list" where
  "settled_example =
     [SetUseCutoff 4, SetUseCutoff 5, SetQuinticLowerLimitFactor 1, SetPeriodic ((!) [10, 11, 12])]"

text \<open>A sequence of calls that sets the upper Born radius limit twice.\<close>
definition limits_example :: "method_call list" where
  "limits_example =
     [SetQuinticUpperBornRadiusLimit 2, SetUseCutoff 5, SetQuinticLowerLimitFactor 1,
      SetQuinticUpperBornRadiusLimit 4]"

subsection \<open>Predicates of the properties\<close>

text \<open>Each stored box dimension is at least twice the stored cutoff distance.\<close>
definition box_at_least_twice_cutoff :: "GBVISoftcoreParameters \<Rightarrow> bool" where
  "box_at_least_twice_cutoff s =
     (case (cutoffDistance s, periodicBoxSize s) of
        (Some d, Some b0, Some b1, Some b2) \<Rightarrow> b0 \<ge> 2 * d \<and> b1 \<ge> 2 * d \<and> b2 \<ge> 2 * d
      | _ \<Rightarrow> False)"

fun is_SetUseCutoff :: "method_call \<Rightarrow> bool" where
  "is_SetUseCutoff (SetUseCutoff d) = True"
| "is_SetUseCutoff c = False"

text \<open>No \<open>SetUseCutoff\<close> comes after a \<open>SetPeriodic\<close> in the sequence.\<close>
fun no_cutoff_after_periodic :: "method_call list \<Rightarrow> bool" where
  "no_cutoff_after_periodic [] = True"
| "no_cutoff_after_periodic (SetPeriodic b # cs) = list_all (\<lambda>c. \<not> is_SetUseCutoff c) cs"
| "no_cutoff_after_periodic (c # cs) = no_cutoff_after_periodic cs"

text \<open>
  The upper Born radius limit a sequence of calls leaves behind, starting from \<open>l\<close>: the
  argument of its last \<open>SetQuinticUpperBornRadiusLimit\<close>.
\<close>
fun last_upper_limit :: "real \<Rightarrow> method_call list \<Rightarrow> real" where
  "last_upper_limit l [] = l"
| "last_upper_limit l (SetQuinticUpperBornRadiusLimit v # cs) = last_upper_limit v cs"
| "last_upper_limit l (c # cs) = last_upper_limit l cs"

section \<open>Properties\<close>

text \<open>
  C9: \<open>getTau\<close> returns 0 whenever the solute or the solvent dielectric is exactly zero,
  and \<open>1/soluteDielectric - 1/solventDielectric\<close> otherwise. The value is determined by
  the two dielectric constants the base state holds at the time of the call: it follows
  every change of them (nothing is cached), no other field enters, and as a value
  computed from the state it leaves the state as it is.
\<close>
theorem getTau_spec:
  "getTau s =
     (if soluteDielectric s = 0 \<or> solventDielectric s = 0 then 0
      else 1 / soluteDielectric s - 1 / solventDielectric s)
   \<and> getTau (s\<lparr>soluteDielectric := e1, solventDielectric := e0\<rparr>) =
     (if e1 = 0 \<or> e0 = 0 then 0 else 1 / e1 - 1 / e0)"
  by (simp add: getTau_def getSoluteDielectric_def getSolventDielectric_def)

theorem getTau_spec_witness:
  "getTau (new_GBVISoftcoreParameters 3 1 (157 / 2)) = 155 / 157
   \<and> getTau ((new_GBVISoftcoreParameters 3 1 (157 / 2))\<lparr>soluteDielectric := 0, solventDielectric := 157 / 2\<rparr>) = 0"
proof -
  have d: "soluteDielectric (new_GBVISoftcoreParameters 3 1 (157 / 2)) = 1"
          "solventDielectric (new_GBVISoftcoreParameters 3 1 (157 / 2)) = 157 / 2"
    by (simp_all add: new_GBVISoftcoreParameters_def setQuinticUpperBornRadiusLimit_def)
  show ?thesis
    using getTau_spec [where s = "new_GBVISoftcoreParameters 3 1 (157 / 2)" and ?e1.0 = 0
        and ?e0.0 = "157 / 2"]
    by (simp add: d)
qed

text \<open>
  C4: \<open>setPeriodic\<close> ends in a failed assertion whenever the cutoff is not enabled, and,
  with the cutoff enabled at distance \<open>d\<close>, whenever one of \<open>boxSize[0]\<close>, \<open>boxSize[1]\<close>,
  \<open>boxSize[2]\<close> is below \<open>2 * d\<close>. With the cutoff enabled and all three at least \<open>2 * d\<close>
  no assertion fails: the call returns the container with \<open>periodic\<close> set and the three
  box dimensions stored, and nothing else changed.
\<close>
theorem setPeriodic_contract:
  "(\<not> cutoff s \<longrightarrow> setPeriodic boxSize s = Inl (AssertionFailure ''cutoff''))
   \<and> (cutoff s \<and> cutoffDistance s = Some d
        \<and> (boxSize 0 < 2 * d \<or> boxSize 1 < 2 * d \<or> boxSize 2 < 2 * d)
      \<longrightarrow> (\<exists>m. setPeriodic boxSize s = Inl (AssertionFailure m)))
   \<and> (cutoff s \<and> cutoffDistance s = Some d
        \<and> boxSize 0 \<ge> 2 * d \<and> boxSize 1 \<ge> 2 * d \<and> boxSize 2 \<ge> 2 * d
      \<longrightarrow> setPeriodic boxSize s =
            Inr (s\<lparr>periodic := True,
                   periodicBoxSize := (Some (boxSize 0), Some (boxSize 1), Some (boxSize 2))\<rparr>))"
  by (auto simp add: setPeriodic_def)

theorem setPeriodic_contract_witness:
  "setPeriodic ((!) [10, 10, 10]) (setUseCutoff 5 (new_GBVISoftcoreParameters 3 1 78)) =
     Inr ((setUseCutoff 5 (new_GBVISoftcoreParameters 3 1 78))
            \<lparr>periodic := True, periodicBoxSize := (Some 10, Some 10, Some 10)\<rparr>)
   \<and> (\<exists>m. setPeriodic ((!) [9, 10, 10]) (setUseCutoff 5 (new_GBVISoftcoreParameters 3 1 78)) =
            Inl (AssertionFailure m))
   \<and> setPeriodic ((!) [10, 10, 10]) (new_GBVISoftcoreParameters 3 1 78) =
       Inl (AssertionFailure ''cutoff'')"
proof -
  let ?init = "new_GBVISoftcoreParameters 3 1 78"
  let ?s = "setUseCutoff 5 ?init"
  have c: "cutoff ?s" "cutoffDistance ?s = Some 5" "\<not> cutoff ?init"
    by (simp_all add: setUseCutoff_def new_GBVISoftcoreParameters_def
        setQuinticUpperBornRadiusLimit_def Let_def)
  have ok: "setPeriodic ((!) [10, 10, 10]) ?s =
     Inr (?s\<lparr>periodic := True, periodicBoxSize := (Some 10, Some 10, Some 10)\<rparr>)"
    using setPeriodic_contract [of ?s "(!) [10, 10, 10]" 5] c by simp
  have bad: "\<exists>m. setPeriodic ((!) [9, 10, 10]) ?s = Inl (AssertionFailure m)"
    using setPeriodic_contract [of ?s "(!) [9, 10, 10]" 5] c by simp
  have nocut: "setPeriodic ((!) [10, 10, 10]) ?init = Inl (AssertionFailure ''cutoff'')"
    using setPeriodic_contract [of ?init "(!) [10, 10, 10]"] c by simp
  show ?thesis using ok bad nocut by simp
qed

subsection \<open>Facts about the store\<close>

lemma delete_array_fields:
  "fresh (delete_array p h) = fresh h"
  "written (delete_array p h) = written h"
  "oob (delete_array p h) = oob h"
  by (simp_all add: delete_array_def split: option.splits)

lemma delete_array_freed:
  "freed (delete_array p h) = freed h @ (case p of None \<Rightarrow> [] | Some a \<Rightarrow> [a])"
  by (simp add: delete_array_def split: option.splits)

lemma delete_array_blocks:
  "blocks (delete_array p h) q = (if p = Some q then None else blocks h q)"
  by (auto simp add: delete_array_def split: option.splits)

lemma new_fields:
  "numberOfAtoms (new_GBVISoftcoreParameters n e1 e0) = n"
  "ownScaledRadii (new_GBVISoftcoreParameters n e1 e0) = 0"
  "scaledRadii (new_GBVISoftcoreParameters n e1 e0) = None"
  "ownGammaParameters (new_GBVISoftcoreParameters n e1 e0) = 0"
  "gammaParameters (new_GBVISoftcoreParameters n e1 e0) = None"
  "ownBornRadiusScaleFactors (new_GBVISoftcoreParameters n e1 e0) = 0"
  "bornRadiusScaleFactors (new_GBVISoftcoreParameters n e1 e0) = None"
  "cutoff (new_GBVISoftcoreParameters n e1 e0) = False"
  "periodic (new_GBVISoftcoreParameters n e1 e0) = False"
  by (simp_all add: new_GBVISoftcoreParameters_def setQuinticUpperBornRadiusLimit_def Let_def)

lemma owning_example_eq:
  "owning_example =
     Inr ((new_GBVISoftcoreParameters 3 1 78)
            \<lparr>ownScaledRadii := 1, scaledRadii := Some 0,
             ownGammaParameters := 1, gammaParameters := Some 1,
             ownBornRadiusScaleFactors := 1, bornRadiusScaleFactors := Some 2\<rparr>,
          caller_store)"
  by (simp add: owning_example_def new_fields
      setScaledRadii_ptr_def setOwnScaledRadii_def
      setGammaParameters_ptr_def setOwnGammaParameters_def
      setBornRadiusScaleFactors_ptr_def setOwnBornRadiusScaleFactors_def)

lemma borrowing_example_eq:
  "borrowing_example =
     ((new_GBVISoftcoreParameters 3 1 78)\<lparr>gammaParameters := Some 0\<rparr>, caller_store)"
  by (simp add: borrowing_example_def new_fields setGammaParameters_ptr_def)

subsection \<open>The setters that take a pointer\<close>



lemma setScaledRadii_ptr_same: "setScaledRadii_ptr (scaledRadii s) s h = (s, h)"
  by (simp add: setScaledRadii_ptr_def)



lemma setGammaParameters_ptr_same: "setGammaParameters_ptr (gammaParameters s) s h = (s, h)"
  by (simp add: setGammaParameters_ptr_def)



lemma setBornRadiusScaleFactors_ptr_same: "setBornRadiusScaleFactors_ptr (bornRadiusScaleFactors s) s h = (s, h)"
  by (simp add: setBornRadiusScaleFactors_ptr_def)



text \<open>
  C10: calling a pointer setter with the very pointer the slot holds, while the slot's
  ownership flag is set, returns the container and the store as they were: nothing is
  passed to \<^verbatim>\<open>delete[]\<close>, the flag stays set and the installed array stays live.
\<close>
theorem pointer_setters_self_assignment:
  "(ownScaledRadii s \<noteq> 0 \<longrightarrow> setScaledRadii_ptr (scaledRadii s) s h = (s, h))
   \<and> (ownGammaParameters s \<noteq> 0 \<longrightarrow> setGammaParameters_ptr (gammaParameters s) s h = (s, h))
   \<and> (ownBornRadiusScaleFactors s \<noteq> 0 \<longrightarrow>
        setBornRadiusScaleFactors_ptr (bornRadiusScaleFactors s) s h = (s, h))"
  by (simp add: setScaledRadii_ptr_same setGammaParameters_ptr_same
      setBornRadiusScaleFactors_ptr_same)

theorem pointer_setters_self_assignment_witness:
  "setScaledRadii_ptr (Some 0) (fst (projr owning_example)) caller_store =
     (fst (projr owning_example), caller_store)
   \<and> setGammaParameters_ptr (Some 1) (fst (projr owning_example)) caller_store =
     (fst (projr owning_example), caller_store)
   \<and> setBornRadiusScaleFactors_ptr (Some 2) (fst (projr owning_example)) caller_store =
     (fst (projr owning_example), caller_store)
   \<and> ownScaledRadii (fst (projr owning_example)) = 1
   \<and> freed caller_store = []"
proof -
  let ?s = "fst (projr owning_example)"
  have pre: "ownScaledRadii ?s \<noteq> 0" "ownGammaParameters ?s \<noteq> 0"
    "ownBornRadiusScaleFactors ?s \<noteq> 0"
    by (simp_all add: owning_example_eq)
  have val: "scaledRadii ?s = Some 0" "gammaParameters ?s = Some 1"
    "bornRadiusScaleFactors ?s = Some 2" "ownScaledRadii ?s = 1" "freed caller_store = []"
    by (simp_all add: owning_example_eq caller_store_def)
  show ?thesis
    using pointer_setters_self_assignment [of ?s caller_store] pre
    by (simp add: val)
qed

subsection \<open>The destructor\<close>

lemma delete_GBVISoftcoreParameters_freed:
  "freed (delete_GBVISoftcoreParameters s h) =
     freed h
     @ (if ownScaledRadii s \<noteq> 0 then (case scaledRadii s of None \<Rightarrow> [] | Some a \<Rightarrow> [a]) else [])
     @ (case gammaParameters s of None \<Rightarrow> [] | Some a \<Rightarrow> [a])
     @ (case bornRadiusScaleFactors s of None \<Rightarrow> [] | Some a \<Rightarrow> [a])"
  by (simp add: delete_GBVISoftcoreParameters_def delete_array_freed Let_def)

text \<open>
  C2 (what the code does where the claim fails): a container that borrows the caller's
  array 0 as its gamma parameters has the ownership flag of that slot at 0, and its
  destructor passes array 0 to \<^verbatim>\<open>delete[]\<close> all the same; the array is gone from the
  store afterwards.
\<close>
theorem destructor_releases_borrowed_gamma:
  "ownGammaParameters (fst borrowing_example) = 0
   \<and> gammaParameters (fst borrowing_example) = Some 0
   \<and> freed (snd borrowing_example) = []
   \<and> freed (delete_GBVISoftcoreParameters (fst borrowing_example) (snd borrowing_example)) = [0]
   \<and> blocks (delete_GBVISoftcoreParameters (fst borrowing_example) (snd borrowing_example)) 0 = None"
  by (simp add: borrowing_example_eq new_fields delete_GBVISoftcoreParameters_def
      delete_array_def caller_store_def)

subsection \<open>Element stores and the two loops\<close>

lemma store_elem_fresh: "fresh (store_elem a i v h) = fresh h"
  by (simp add: store_elem_def split: option.splits)

lemma store_elem_freed: "freed (store_elem a i v h) = freed h"
  by (simp add: store_elem_def split: option.splits)

lemma store_elem_written: "written (store_elem a i v h) = written h @ [(a, i)]"
  by (simp add: store_elem_def split: option.splits)

lemma store_elem_blocks_other: "a' \<noteq> a \<Longrightarrow> blocks (store_elem a i v h) a' = blocks h a'"
  by (simp add: store_elem_def split: option.splits)

lemma store_elem_blocks_in:
  "blocks h a = Some b \<Longrightarrow> i < length b \<Longrightarrow>
   blocks (store_elem a i v h) a = Some (b[i := Some v])"
  by (simp add: store_elem_def)

lemma store_elem_blocks_out:
  "blocks h a = Some b \<Longrightarrow> \<not> i < length b \<Longrightarrow> blocks (store_elem a i v h) a = Some b"
  by (simp add: store_elem_def)

lemma store_elem_oob_in:
  "blocks h a = Some b \<Longrightarrow> i < length b \<Longrightarrow> oob (store_elem a i v h) = oob h"
  by (simp add: store_elem_def)

lemma store_elem_oob_out:
  "blocks h a = Some b \<Longrightarrow> \<not> i < length b \<Longrightarrow> oob (store_elem a i v h) = oob h @ [(a, i)]"
  by (simp add: store_elem_def)

declare copy_loop.simps [simp del] memset_zero.simps [simp del]

lemma copy_loop_fresh: "fresh (copy_loop a vs ii h) = fresh h"
  by (induction a vs ii h rule: copy_loop.induct)
     (subst copy_loop.simps, simp add: store_elem_fresh)

lemma copy_loop_freed: "freed (copy_loop a vs ii h) = freed h"
  by (induction a vs ii h rule: copy_loop.induct)
     (subst copy_loop.simps, simp add: store_elem_freed)

lemma copy_loop_written:
  "written (copy_loop a vs ii h) = written h @ map (Pair a) [ii..<length vs]"
proof (induction a vs ii h rule: copy_loop.induct)
  case (1 a vs ii h)
  show ?case
  proof (cases "ii < length vs")
    case True
    with 1 show ?thesis
      by (subst copy_loop.simps) (simp add: store_elem_written upt_conv_Cons)
  next
    case False
    then show ?thesis by (subst copy_loop.simps) simp
  qed
qed

lemma copy_loop_blocks_other:
  "a' \<noteq> a \<Longrightarrow> blocks (copy_loop a vs ii h) a' = blocks h a'"
  by (induction a vs ii h rule: copy_loop.induct)
     (subst copy_loop.simps, simp add: store_elem_blocks_other)

lemma copy_loop_blocks:
  "blocks h a = Some b \<Longrightarrow>
   blocks (copy_loop a vs ii h) a =
     Some (take ii b @ map Some (take (length b - ii) (drop ii vs)) @ drop (max ii (length vs)) b)"
proof (induction a vs ii h arbitrary: b rule: copy_loop.induct)
  case (1 a vs ii h)
  show ?case
  proof (cases "ii < length vs")
    case False
    then show ?thesis using 1(2) by (subst copy_loop.simps) (simp add: max_def)
  next
    case True
    note lt = True
    show ?thesis
    proof (cases "ii < length b")
      case True
      have b1: "blocks (store_elem a ii (vs ! ii) h) a = Some (b[ii := Some (vs ! ii)])"
        using 1(2) True by (rule store_elem_blocks_in)
      have d: "drop ii vs = vs ! ii # drop (Suc ii) vs"
        using lt by (simp add: Cons_nth_drop_Suc)
      have t: "take (length b - ii) (drop ii vs) =
                 vs ! ii # take (length b - Suc ii) (drop (Suc ii) vs)"
        using True by (simp add: d take_Cons' )
      have tk: "take (Suc ii) (b[ii := Some (vs ! ii)]) = take ii b @ [Some (vs ! ii)]"
        using True by (simp add: take_Suc_conv_app_nth)
      have dr: "drop (max (Suc ii) (length vs)) (b[ii := Some (vs ! ii)]) =
                 drop (max ii (length vs)) b"
        using lt by (simp add: max_def)
      show ?thesis
        using "1.IH" [OF lt b1] lt
        by (subst copy_loop.simps) (simp add: t tk dr)
    next
      case False
      have b1: "blocks (store_elem a ii (vs ! ii) h) a = Some b"
        using 1(2) False by (rule store_elem_blocks_out)
      show ?thesis
        using "1.IH" [OF lt b1] lt False
        by (subst copy_loop.simps) simp
    qed
  qed
qed

lemma copy_loop_oob:
  "blocks h a = Some b \<Longrightarrow>
   oob (copy_loop a vs ii h) =
     oob h @ map (Pair a) (filter (\<lambda>i. \<not> i < length b) [ii..<length vs])"
proof (induction a vs ii h arbitrary: b rule: copy_loop.induct)
  case (1 a vs ii h)
  show ?case
  proof (cases "ii < length vs")
    case False
    then show ?thesis by (subst copy_loop.simps) simp
  next
    case True
    note lt = True
    show ?thesis
    proof (cases "ii < length b")
      case True
      have b1: "blocks (store_elem a ii (vs ! ii) h) a = Some (b[ii := Some (vs ! ii)])"
        using 1(2) True by (rule store_elem_blocks_in)
      show ?thesis
        using "1.IH" [OF lt b1] lt True store_elem_oob_in [OF 1(2) True]
        by (subst copy_loop.simps) (simp add: upt_conv_Cons)
    next
      case False
      have b1: "blocks (store_elem a ii (vs ! ii) h) a = Some b"
        using 1(2) False by (rule store_elem_blocks_out)
      show ?thesis
        using "1.IH" [OF lt b1] lt False store_elem_oob_out [OF 1(2) False]
        by (subst copy_loop.simps) (simp add: upt_conv_Cons)
    qed
  qed
qed


lemma memset_zero_fresh: "fresh (memset_zero a n ii h) = fresh h"
  by (induction a n ii h rule: memset_zero.induct)
     (subst memset_zero.simps, simp add: store_elem_fresh)

lemma memset_zero_freed: "freed (memset_zero a n ii h) = freed h"
  by (induction a n ii h rule: memset_zero.induct)
     (subst memset_zero.simps, simp add: store_elem_freed)

lemma memset_zero_written:
  "written (memset_zero a n ii h) = written h @ map (Pair a) [ii..<n]"
proof (induction a n ii h rule: memset_zero.induct)
  case (1 a n ii h)
  show ?case
  proof (cases "ii < n")
    case True
    with 1 show ?thesis
      by (subst memset_zero.simps) (simp add: store_elem_written upt_conv_Cons)
  next
    case False
    then show ?thesis by (subst memset_zero.simps) simp
  qed
qed

lemma memset_zero_blocks_other:
  "a' \<noteq> a \<Longrightarrow> blocks (memset_zero a n ii h) a' = blocks h a'"
  by (induction a n ii h rule: memset_zero.induct)
     (subst memset_zero.simps, simp add: store_elem_blocks_other)

lemma memset_zero_within:
  "blocks h a = Some b \<Longrightarrow> n \<le> length b \<Longrightarrow>
   blocks (memset_zero a n ii h) a = Some (take ii b @ replicate (n - ii) (Some 0) @ drop (max ii n) b)
   \<and> oob (memset_zero a n ii h) = oob h"
proof (induction a n ii h arbitrary: b rule: memset_zero.induct)
  case (1 a n ii h)
  show ?case
  proof (cases "ii < n")
    case False
    then show ?thesis using 1(2) by (subst (1 2) memset_zero.simps) (simp add: max_def)
  next
    case True
    then have inb: "ii < length b" using 1(3) by simp
    have b1: "blocks (store_elem a ii 0 h) a = Some (b[ii := Some 0])"
      using 1(2) inb by (rule store_elem_blocks_in)
    have len: "n \<le> length (b[ii := Some 0])" using 1(3) by simp
    have tk: "take (Suc ii) (b[ii := Some 0]) = take ii b @ [Some 0]"
      using inb by (simp add: take_Suc_conv_app_nth)
    have dr: "drop (max (Suc ii) n) (b[ii := Some 0]) = drop (max ii n) b"
      using True by (simp add: max_def)
    have rp: "replicate (n - ii) (Some (0::real)) = Some 0 # replicate (n - Suc ii) (Some 0)"
      using True by (simp add: replicate_Suc [symmetric] Suc_diff_Suc del: replicate_Suc)
    show ?thesis
      using "1.IH" [OF True b1 len] store_elem_oob_in [OF 1(2) inb, of 0]
      by (subst (1 2) memset_zero.simps) (simp add: True tk dr rp)
  qed
qed

lemma memset_zero_whole:
  assumes "blocks h a = Some b" and "length b = n"
  shows "memset_zero a n 0 h =
           h\<lparr>blocks := (blocks h)(a \<mapsto> replicate n (Some 0)),
             written := written h @ map (Pair a) [0..<n]\<rparr>"
proof (rule store.equality)
  show "blocks (memset_zero a n 0 h) =
        blocks (h\<lparr>blocks := (blocks h)(a \<mapsto> replicate n (Some 0)),
                  written := written h @ map (Pair a) [0..<n]\<rparr>)"
  proof (rule ext)
    fix a'
    show "blocks (memset_zero a n 0 h) a' =
          blocks (h\<lparr>blocks := (blocks h)(a \<mapsto> replicate n (Some 0)),
                    written := written h @ map (Pair a) [0..<n]\<rparr>) a'"
      using memset_zero_within [OF assms(1), of n 0] assms(2)
      by (cases "a' = a") (simp_all add: memset_zero_blocks_other)
  qed
qed (use memset_zero_within [OF assms(1), of n 0] assms(2) in
      \<open>simp_all add: memset_zero_fresh memset_zero_freed memset_zero_written\<close>)

subsection \<open>The getters\<close>

lemma getScaledRadii_allocates:
  assumes "scaledRadii s = None" and "0 \<le> numberOfAtoms s"
  shows "getScaledRadii s h =
           Inr (Some (fresh h), s\<lparr>scaledRadii := Some (fresh h), ownScaledRadii := 1\<rparr>,
                h\<lparr>blocks := (blocks h)(fresh h \<mapsto> replicate (nat (numberOfAtoms s)) (Some 0)),
                  fresh := Suc (fresh h),
                  written := written h @ map (Pair (fresh h)) [0..<nat (numberOfAtoms s)]\<rparr>)"
proof -
  let ?n = "nat (numberOfAtoms s)"
  let ?h1 = "h\<lparr>blocks := (blocks h)(fresh h \<mapsto> replicate ?n None), fresh := Suc (fresh h)\<rparr>"
  have z: "memset_zero (fresh h) ?n 0 ?h1 =
             ?h1\<lparr>blocks := (blocks ?h1)(fresh h \<mapsto> replicate ?n (Some 0)),
                  written := written ?h1 @ map (Pair (fresh h)) [0..<?n]\<rparr>"
    by (rule memset_zero_whole [where b = "replicate ?n None"]) simp_all
  show ?thesis
    using assms by (simp add: getScaledRadii_def new_array_def getNumberOfAtoms_def z)
qed

lemma getScaledRadii_present: "scaledRadii s \<noteq> None \<Longrightarrow> getScaledRadii s h = Inr (scaledRadii s, s, h)"
  by (auto simp add: getScaledRadii_def)

lemma getGammaParameters_allocates:
  assumes "gammaParameters s = None" and "0 \<le> numberOfAtoms s"
  shows "getGammaParameters s h =
           Inr (Some (fresh h), s\<lparr>gammaParameters := Some (fresh h), ownGammaParameters := 1\<rparr>,
                h\<lparr>blocks := (blocks h)(fresh h \<mapsto> replicate (nat (numberOfAtoms s)) (Some 0)),
                  fresh := Suc (fresh h),
                  written := written h @ map (Pair (fresh h)) [0..<nat (numberOfAtoms s)]\<rparr>)"
proof -
  let ?n = "nat (numberOfAtoms s)"
  let ?h1 = "h\<lparr>blocks := (blocks h)(fresh h \<mapsto> replicate ?n None), fresh := Suc (fresh h)\<rparr>"
  have z: "memset_zero (fresh h) ?n 0 ?h1 =
             ?h1\<lparr>blocks := (blocks ?h1)(fresh h \<mapsto> replicate ?n (Some 0)),
                  written := written ?h1 @ map (Pair (fresh h)) [0..<?n]\<rparr>"
    by (rule memset_zero_whole [where b = "replicate ?n None"]) simp_all
  show ?thesis
    using assms by (simp add: getGammaParameters_def new_array_def getNumberOfAtoms_def z)
qed

lemma getGammaParameters_present: "gammaParameters s \<noteq> None \<Longrightarrow> getGammaParameters s h = Inr (gammaParameters s, s, h)"
  by (auto simp add: getGammaParameters_def)

lemma getBornRadiusScaleFactors_allocates:
  assumes "bornRadiusScaleFactors s = None" and "0 \<le> numberOfAtoms s"
  shows "getBornRadiusScaleFactors s h =
           Inr (Some (fresh h), s\<lparr>bornRadiusScaleFactors := Some (fresh h), ownBornRadiusScaleFactors := 1\<rparr>,
                h\<lparr>blocks := (blocks h)(fresh h \<mapsto> replicate (nat (numberOfAtoms s)) (Some 0)),
                  fresh := Suc (fresh h),
                  written := written h @ map (Pair (fresh h)) [0..<nat (numberOfAtoms s)]\<rparr>)"
proof -
  let ?n = "nat (numberOfAtoms s)"
  let ?h1 = "h\<lparr>blocks := (blocks h)(fresh h \<mapsto> replicate ?n None), fresh := Suc (fresh h)\<rparr>"
  have z: "memset_zero (fresh h) ?n 0 ?h1 =
             ?h1\<lparr>blocks := (blocks ?h1)(fresh h \<mapsto> replicate ?n (Some 0)),
                  written := written ?h1 @ map (Pair (fresh h)) [0..<?n]\<rparr>"
    by (rule memset_zero_whole [where b = "replicate ?n None"]) simp_all
  show ?thesis
    using assms by (simp add: getBornRadiusScaleFactors_def new_array_def getNumberOfAtoms_def z)
qed

lemma getBornRadiusScaleFactors_present: "bornRadiusScaleFactors s \<noteq> None \<Longrightarrow> getBornRadiusScaleFactors s h = Inr (bornRadiusScaleFactors s, s, h)"
  by (auto simp add: getBornRadiusScaleFactors_def)

text \<open>
  C7: for a positive atom count \<open>N\<close>, each of \<open>getScaledRadii\<close>, \<open>getGammaParameters\<close> and
  \<open>getBornRadiusScaleFactors\<close>, called while its slot is empty (as it is in a freshly
  constructed container), allocates an array of \<open>N\<close> elements, fills it with zeros, sets
  the slot's ownership flag to 1 and returns the new array; nothing else changes. Called
  while the slot holds an array, it returns that array and leaves container and store as
  they were. In both cases the call returns normally.
\<close>
theorem getters_allocate_lazily:
  "(scaledRadii s = None \<and> 0 < numberOfAtoms s \<longrightarrow>
      getScaledRadii s h =
        Inr (Some (fresh h), s\<lparr>scaledRadii := Some (fresh h), ownScaledRadii := 1\<rparr>,
             h\<lparr>blocks := (blocks h)(fresh h \<mapsto> replicate (nat (numberOfAtoms s)) (Some 0)),
               fresh := Suc (fresh h),
               written := written h @ map (Pair (fresh h)) [0..<nat (numberOfAtoms s)]\<rparr>))
   \<and> (scaledRadii s \<noteq> None \<longrightarrow> getScaledRadii s h = Inr (scaledRadii s, s, h))
   \<and> scaledRadii (new_GBVISoftcoreParameters n e1 e0) = None
   \<and> (gammaParameters s = None \<and> 0 < numberOfAtoms s \<longrightarrow>
      getGammaParameters s h =
        Inr (Some (fresh h), s\<lparr>gammaParameters := Some (fresh h), ownGammaParameters := 1\<rparr>,
             h\<lparr>blocks := (blocks h)(fresh h \<mapsto> replicate (nat (numberOfAtoms s)) (Some 0)),
               fresh := Suc (fresh h),
               written := written h @ map (Pair (fresh h)) [0..<nat (numberOfAtoms s)]\<rparr>))
   \<and> (gammaParameters s \<noteq> None \<longrightarrow> getGammaParameters s h = Inr (gammaParameters s, s, h))
   \<and> gammaParameters (new_GBVISoftcoreParameters n e1 e0) = None
   \<and> (bornRadiusScaleFactors s = None \<and> 0 < numberOfAtoms s \<longrightarrow>
      getBornRadiusScaleFactors s h =
        Inr (Some (fresh h), s\<lparr>bornRadiusScaleFactors := Some (fresh h), ownBornRadiusScaleFactors := 1\<rparr>,
             h\<lparr>blocks := (blocks h)(fresh h \<mapsto> replicate (nat (numberOfAtoms s)) (Some 0)),
               fresh := Suc (fresh h),
               written := written h @ map (Pair (fresh h)) [0..<nat (numberOfAtoms s)]\<rparr>))
   \<and> (bornRadiusScaleFactors s \<noteq> None \<longrightarrow> getBornRadiusScaleFactors s h = Inr (bornRadiusScaleFactors s, s, h))
   \<and> bornRadiusScaleFactors (new_GBVISoftcoreParameters n e1 e0) = None
   \<and> numberOfAtoms (new_GBVISoftcoreParameters n e1 e0) = n"
  using getScaledRadii_allocates [of s h] getScaledRadii_present [of s h]
    getGammaParameters_allocates [of s h] getGammaParameters_present [of s h]
    getBornRadiusScaleFactors_allocates [of s h] getBornRadiusScaleFactors_present [of s h]
  by (simp add: new_fields)

theorem getters_allocate_lazily_witness:
  "getScaledRadii (new_GBVISoftcoreParameters 3 1 78) empty_store =
     Inr (Some 0,
          (new_GBVISoftcoreParameters 3 1 78)\<lparr>scaledRadii := Some 0, ownScaledRadii := 1\<rparr>,
          \<lparr>blocks = [0 \<mapsto> [Some 0, Some 0, Some 0]], fresh = 1, freed = [],
           written = [(0, 0), (0, 1), (0, 2)], oob = []\<rparr>)
   \<and> getGammaParameters (new_GBVISoftcoreParameters 3 1 78) empty_store =
     Inr (Some 0,
          (new_GBVISoftcoreParameters 3 1 78)\<lparr>gammaParameters := Some 0, ownGammaParameters := 1\<rparr>,
          \<lparr>blocks = [0 \<mapsto> [Some 0, Some 0, Some 0]], fresh = 1, freed = [],
           written = [(0, 0), (0, 1), (0, 2)], oob = []\<rparr>)
   \<and> getBornRadiusScaleFactors (new_GBVISoftcoreParameters 3 1 78) empty_store =
     Inr (Some 0,
          (new_GBVISoftcoreParameters 3 1 78)
            \<lparr>bornRadiusScaleFactors := Some 0, ownBornRadiusScaleFactors := 1\<rparr>,
          \<lparr>blocks = [0 \<mapsto> [Some 0, Some 0, Some 0]], fresh = 1, freed = [],
           written = [(0, 0), (0, 1), (0, 2)], oob = []\<rparr>)
   \<and> getScaledRadii (fst (projr owning_example)) caller_store =
     Inr (Some 0, fst (projr owning_example), caller_store)
   \<and> getGammaParameters (fst (projr owning_example)) caller_store =
     Inr (Some 1, fst (projr owning_example), caller_store)
   \<and> getBornRadiusScaleFactors (fst (projr owning_example)) caller_store =
     Inr (Some 2, fst (projr owning_example), caller_store)"
proof -
  let ?init = "new_GBVISoftcoreParameters 3 1 78"
  let ?own = "fst (projr owning_example)"
  have upt3: "[0..<3] = [0, 1, 2]" by (simp add: upt_conv_Cons)
  have rep3: "replicate 3 (Some (0::real)) = [Some 0, Some 0, Some 0]"
    by (simp add: numeral_3_eq_3)
  have pre: "scaledRadii ?init = None \<and> 0 < numberOfAtoms ?init"
    "gammaParameters ?init = None \<and> 0 < numberOfAtoms ?init"
    "bornRadiusScaleFactors ?init = None \<and> 0 < numberOfAtoms ?init"
    by (simp_all add: new_fields)
  have first:
    "getScaledRadii ?init empty_store =
       Inr (Some 0, ?init\<lparr>scaledRadii := Some 0, ownScaledRadii := 1\<rparr>,
            \<lparr>blocks = [0 \<mapsto> [Some 0, Some 0, Some 0]], fresh = 1, freed = [],
             written = [(0, 0), (0, 1), (0, 2)], oob = []\<rparr>)"
    "getGammaParameters ?init empty_store =
       Inr (Some 0, ?init\<lparr>gammaParameters := Some 0, ownGammaParameters := 1\<rparr>,
            \<lparr>blocks = [0 \<mapsto> [Some 0, Some 0, Some 0]], fresh = 1, freed = [],
             written = [(0, 0), (0, 1), (0, 2)], oob = []\<rparr>)"
    "getBornRadiusScaleFactors ?init empty_store =
       Inr (Some 0, ?init\<lparr>bornRadiusScaleFactors := Some 0, ownBornRadiusScaleFactors := 1\<rparr>,
            \<lparr>blocks = [0 \<mapsto> [Some 0, Some 0, Some 0]], fresh = 1, freed = [],
             written = [(0, 0), (0, 1), (0, 2)], oob = []\<rparr>)"
    using getters_allocate_lazily [of ?init empty_store] pre
    by (simp_all add: new_fields empty_store_def upt3 rep3)
  have pre2: "scaledRadii ?own \<noteq> None" "gammaParameters ?own \<noteq> None"
    "bornRadiusScaleFactors ?own \<noteq> None"
    by (simp_all add: owning_example_eq)
  have val: "scaledRadii ?own = Some 0" "gammaParameters ?own = Some 1"
    "bornRadiusScaleFactors ?own = Some 2"
    by (simp_all add: owning_example_eq)
  have second:
    "getScaledRadii ?own caller_store = Inr (Some 0, ?own, caller_store)"
    "getGammaParameters ?own caller_store = Inr (Some 1, ?own, caller_store)"
    "getBornRadiusScaleFactors ?own caller_store = Inr (Some 2, ?own, caller_store)"
    using getters_allocate_lazily [of ?own caller_store] pre2
    by (simp_all add: val)
  show ?thesis using first second by simp
qed

subsection \<open>The setters that take a vector\<close>

lemma filter_not_less_upt: "filter (\<lambda>i. \<not> i < n) [0..<m] = [n..<m]"
  by (induction m) auto

text \<open>What the copy loop does to an array of \<open>n\<close> uninitialised elements.\<close>
lemma copy_loop_new_array:
  assumes "blocks h a = Some (replicate n None)"
  shows "blocks (copy_loop a vs 0 h) a =
           Some (map Some (take n vs) @ replicate (n - length vs) None)"
    and "written (copy_loop a vs 0 h) = written h @ map (Pair a) [0..<length vs]"
    and "oob (copy_loop a vs 0 h) = oob h @ map (Pair a) [n..<length vs]"
    and "freed (copy_loop a vs 0 h) = freed h"
    and "fresh (copy_loop a vs 0 h) = fresh h"
  using copy_loop_blocks [OF assms, of vs 0] copy_loop_oob [OF assms, of vs 0]
  by (simp_all add: copy_loop_written copy_loop_freed copy_loop_fresh filter_not_less_upt)

lemma setScaledRadii_vec_result:
  assumes "0 \<le> numberOfAtoms s"
  shows "\<exists>s' h'. setScaledRadii_vec vs s h = Inr (s', h')
           \<and> s' = s\<lparr>ownScaledRadii := 1, scaledRadii := Some (fresh h)\<rparr>
           \<and> blocks h' (fresh h) =
                 Some (map Some (take (nat (numberOfAtoms s)) vs)
                       @ replicate (nat (numberOfAtoms s) - length vs) None)
           \<and> written h' = written h @ map (Pair (fresh h)) [0..<length vs]
           \<and> oob h' = oob h @ map (Pair (fresh h)) [nat (numberOfAtoms s)..<length vs]
           \<and> freed h' =
                 freed h @ (if ownScaledRadii s \<noteq> 0 then (case scaledRadii s of None \<Rightarrow> [] | Some a \<Rightarrow> [a])
                            else [])"
proof -
  let ?n = "nat (numberOfAtoms s)"
  let ?h1 = "if ownScaledRadii s \<noteq> 0 \<and> scaledRadii s \<noteq> None then delete_array (scaledRadii s) h else h"
  let ?h2 = "?h1\<lparr>blocks := (blocks ?h1)(fresh h \<mapsto> replicate ?n None), fresh := Suc (fresh h)\<rparr>"
  have f1: "fresh ?h1 = fresh h" "written ?h1 = written h" "oob ?h1 = oob h"
    by (simp_all add: delete_array_fields)
  have fr: "freed ?h1 =
              freed h @ (if ownScaledRadii s \<noteq> 0 then (case scaledRadii s of None \<Rightarrow> [] | Some a \<Rightarrow> [a])
                         else [])"
    by (simp add: delete_array_freed)
  have b: "blocks ?h2 (fresh h) = Some (replicate ?n None)" by simp
  have eq: "setScaledRadii_vec vs s h =
              Inr (s\<lparr>ownScaledRadii := 1, scaledRadii := Some (fresh h)\<rparr>, copy_loop (fresh h) vs 0 ?h2)"
    using assms
    by (simp add: setScaledRadii_vec_def new_array_def getNumberOfAtoms_def Let_def delete_array_fields)
  have w: "written ?h2 = written h" "oob ?h2 = oob h" "freed ?h2 = freed ?h1"
    by (simp_all add: delete_array_fields)
  show ?thesis
    unfolding eq
    using copy_loop_new_array [OF b, of vs]
    by (simp only: w fr sum.inject prod.inject simp_thms ex_simps) simp
qed

lemma setGammaParameters_vec_result:
  assumes "0 \<le> numberOfAtoms s"
  shows "\<exists>s' h'. setGammaParameters_vec vs s h = Inr (s', h')
           \<and> s' = s\<lparr>ownGammaParameters := 1, gammaParameters := Some (fresh h)\<rparr>
           \<and> blocks h' (fresh h) =
                 Some (map Some (take (nat (numberOfAtoms s)) vs)
                       @ replicate (nat (numberOfAtoms s) - length vs) None)
           \<and> written h' = written h @ map (Pair (fresh h)) [0..<length vs]
           \<and> oob h' = oob h @ map (Pair (fresh h)) [nat (numberOfAtoms s)..<length vs]
           \<and> freed h' =
                 freed h @ (if ownGammaParameters s \<noteq> 0 then (case gammaParameters s of None \<Rightarrow> [] | Some a \<Rightarrow> [a])
                            else [])"
proof -
  let ?n = "nat (numberOfAtoms s)"
  let ?h1 = "if ownGammaParameters s \<noteq> 0 \<and> gammaParameters s \<noteq> None then delete_array (gammaParameters s) h else h"
  let ?h2 = "?h1\<lparr>blocks := (blocks ?h1)(fresh h \<mapsto> replicate ?n None), fresh := Suc (fresh h)\<rparr>"
  have f1: "fresh ?h1 = fresh h" "written ?h1 = written h" "oob ?h1 = oob h"
    by (simp_all add: delete_array_fields)
  have fr: "freed ?h1 =
              freed h @ (if ownGammaParameters s \<noteq> 0 then (case gammaParameters s of None \<Rightarrow> [] | Some a \<Rightarrow> [a])
                         else [])"
    by (simp add: delete_array_freed)
  have b: "blocks ?h2 (fresh h) = Some (replicate ?n None)" by simp
  have eq: "setGammaParameters_vec vs s h =
              Inr (s\<lparr>ownGammaParameters := 1, gammaParameters := Some (fresh h)\<rparr>, copy_loop (fresh h) vs 0 ?h2)"
    using assms
    by (simp add: setGammaParameters_vec_def new_array_def getNumberOfAtoms_def Let_def delete_array_fields)
  have w: "written ?h2 = written h" "oob ?h2 = oob h" "freed ?h2 = freed ?h1"
    by (simp_all add: delete_array_fields)
  show ?thesis
    unfolding eq
    using copy_loop_new_array [OF b, of vs]
    by (simp only: w fr sum.inject prod.inject simp_thms ex_simps) simp
qed

lemma setBornRadiusScaleFactors_vec_result:
  assumes "0 \<le> numberOfAtoms s"
  shows "\<exists>s' h'. setBornRadiusScaleFactors_vec vs s h = Inr (s', h')
           \<and> s' = s\<lparr>ownBornRadiusScaleFactors := 1, bornRadiusScaleFactors := Some (fresh h)\<rparr>
           \<and> blocks h' (fresh h) =
                 Some (map Some (take (nat (numberOfAtoms s)) vs)
                       @ replicate (nat (numberOfAtoms s) - length vs) None)
           \<and> written h' = written h @ map (Pair (fresh h)) [0..<length vs]
           \<and> oob h' = oob h @ map (Pair (fresh h)) [nat (numberOfAtoms s)..<length vs]
           \<and> freed h' =
                 freed h @ (if ownBornRadiusScaleFactors s \<noteq> 0 then (case bornRadiusScaleFactors s of None \<Rightarrow> [] | Some a \<Rightarrow> [a])
                            else [])"
proof -
  let ?n = "nat (numberOfAtoms s)"
  let ?h1 = "if ownBornRadiusScaleFactors s \<noteq> 0 \<and> bornRadiusScaleFactors s \<noteq> None then delete_array (bornRadiusScaleFactors s) h else h"
  let ?h2 = "?h1\<lparr>blocks := (blocks ?h1)(fresh h \<mapsto> replicate ?n None), fresh := Suc (fresh h)\<rparr>"
  have f1: "fresh ?h1 = fresh h" "written ?h1 = written h" "oob ?h1 = oob h"
    by (simp_all add: delete_array_fields)
  have fr: "freed ?h1 =
              freed h @ (if ownBornRadiusScaleFactors s \<noteq> 0 then (case bornRadiusScaleFactors s of None \<Rightarrow> [] | Some a \<Rightarrow> [a])
                         else [])"
    by (simp add: delete_array_freed)
  have b: "blocks ?h2 (fresh h) = Some (replicate ?n None)" by simp
  have eq: "setBornRadiusScaleFactors_vec vs s h =
              Inr (s\<lparr>ownBornRadiusScaleFactors := 1, bornRadiusScaleFactors := Some (fresh h)\<rparr>, copy_loop (fresh h) vs 0 ?h2)"
    using assms
    by (simp add: setBornRadiusScaleFactors_vec_def new_array_def getNumberOfAtoms_def Let_def delete_array_fields)
  have w: "written ?h2 = written h" "oob ?h2 = oob h" "freed ?h2 = freed ?h1"
    by (simp_all add: delete_array_fields)
  show ?thesis
    unfolding eq
    using copy_loop_new_array [OF b, of vs]
    by (simp only: w fr sum.inject prod.inject simp_thms ex_simps) simp
qed

lemma setScaledRadii_vec_other_blocks:
  assumes "setScaledRadii_vec vs s h = Inr (s', h')" and "a \<noteq> fresh h"
  shows "blocks h' a = (if ownScaledRadii s \<noteq> 0 \<and> scaledRadii s = Some a then None else blocks h a)"
proof (cases "numberOfAtoms s < 0")
  case True
  then show ?thesis
    using assms(1) by (simp add: setScaledRadii_vec_def new_array_def getNumberOfAtoms_def Let_def)
next
  case False
  let ?h1 = "if ownScaledRadii s \<noteq> 0 \<and> scaledRadii s \<noteq> None then delete_array (scaledRadii s) h else h"
  let ?h2 = "?h1\<lparr>blocks := (blocks ?h1)(fresh h \<mapsto> replicate (nat (numberOfAtoms s)) None),
                 fresh := Suc (fresh h)\<rparr>"
  have eq: "setScaledRadii_vec vs s h =
              Inr (s\<lparr>ownScaledRadii := 1, scaledRadii := Some (fresh h)\<rparr>, copy_loop (fresh h) vs 0 ?h2)"
    using False
    by (simp add: setScaledRadii_vec_def new_array_def getNumberOfAtoms_def Let_def delete_array_fields)
  have "h' = copy_loop (fresh h) vs 0 ?h2"
    using assms(1) unfolding eq by simp
  then have "blocks h' a = blocks ?h2 a"
    using assms(2) by (simp add: copy_loop_blocks_other)
  also have "\<dots> = blocks ?h1 a" using assms(2) by simp
  also have "\<dots> = (if ownScaledRadii s \<noteq> 0 \<and> scaledRadii s = Some a then None else blocks h a)"
    by (auto simp add: delete_array_blocks)
  finally show ?thesis .
qed

lemma setGammaParameters_vec_other_blocks:
  assumes "setGammaParameters_vec vs s h = Inr (s', h')" and "a \<noteq> fresh h"
  shows "blocks h' a = (if ownGammaParameters s \<noteq> 0 \<and> gammaParameters s = Some a then None else blocks h a)"
proof (cases "numberOfAtoms s < 0")
  case True
  then show ?thesis
    using assms(1) by (simp add: setGammaParameters_vec_def new_array_def getNumberOfAtoms_def Let_def)
next
  case False
  let ?h1 = "if ownGammaParameters s \<noteq> 0 \<and> gammaParameters s \<noteq> None then delete_array (gammaParameters s) h else h"
  let ?h2 = "?h1\<lparr>blocks := (blocks ?h1)(fresh h \<mapsto> replicate (nat (numberOfAtoms s)) None),
                 fresh := Suc (fresh h)\<rparr>"
  have eq: "setGammaParameters_vec vs s h =
              Inr (s\<lparr>ownGammaParameters := 1, gammaParameters := Some (fresh h)\<rparr>, copy_loop (fresh h) vs 0 ?h2)"
    using False
    by (simp add: setGammaParameters_vec_def new_array_def getNumberOfAtoms_def Let_def delete_array_fields)
  have "h' = copy_loop (fresh h) vs 0 ?h2"
    using assms(1) unfolding eq by simp
  then have "blocks h' a = blocks ?h2 a"
    using assms(2) by (simp add: copy_loop_blocks_other)
  also have "\<dots> = blocks ?h1 a" using assms(2) by simp
  also have "\<dots> = (if ownGammaParameters s \<noteq> 0 \<and> gammaParameters s = Some a then None else blocks h a)"
    by (auto simp add: delete_array_blocks)
  finally show ?thesis .
qed

lemma setBornRadiusScaleFactors_vec_other_blocks:
  assumes "setBornRadiusScaleFactors_vec vs s h = Inr (s', h')" and "a \<noteq> fresh h"
  shows "blocks h' a = (if ownBornRadiusScaleFactors s \<noteq> 0 \<and> bornRadiusScaleFactors s = Some a then None else blocks h a)"
proof (cases "numberOfAtoms s < 0")
  case True
  then show ?thesis
    using assms(1) by (simp add: setBornRadiusScaleFactors_vec_def new_array_def getNumberOfAtoms_def Let_def)
next
  case False
  let ?h1 = "if ownBornRadiusScaleFactors s \<noteq> 0 \<and> bornRadiusScaleFactors s \<noteq> None then delete_array (bornRadiusScaleFactors s) h else h"
  let ?h2 = "?h1\<lparr>blocks := (blocks ?h1)(fresh h \<mapsto> replicate (nat (numberOfAtoms s)) None),
                 fresh := Suc (fresh h)\<rparr>"
  have eq: "setBornRadiusScaleFactors_vec vs s h =
              Inr (s\<lparr>ownBornRadiusScaleFactors := 1, bornRadiusScaleFactors := Some (fresh h)\<rparr>, copy_loop (fresh h) vs 0 ?h2)"
    using False
    by (simp add: setBornRadiusScaleFactors_vec_def new_array_def getNumberOfAtoms_def Let_def delete_array_fields)
  have "h' = copy_loop (fresh h) vs 0 ?h2"
    using assms(1) unfolding eq by simp
  then have "blocks h' a = blocks ?h2 a"
    using assms(2) by (simp add: copy_loop_blocks_other)
  also have "\<dots> = blocks ?h1 a" using assms(2) by simp
  also have "\<dots> = (if ownBornRadiusScaleFactors s \<noteq> 0 \<and> bornRadiusScaleFactors s = Some a then None else blocks h a)"
    by (auto simp add: delete_array_blocks)
  finally show ?thesis .
qed

lemma setScaledRadii_vec_copy:
  assumes "0 \<le> numberOfAtoms s"
  shows "(\<exists>s' h'. setScaledRadii_vec vs s h = Inr (s', h')
            \<and> s' = s\<lparr>ownScaledRadii := 1, scaledRadii := Some (fresh h)\<rparr>
            \<and> scaledRadii s' = Some (fresh h)
            \<and> blocks h' (fresh h) =
                  Some (map Some (take (nat (numberOfAtoms s)) vs)
                        @ replicate (nat (numberOfAtoms s) - length vs) None)
            \<and> map_option length (blocks h' (fresh h)) = Some (nat (numberOfAtoms s))
            \<and> (\<forall>a. a \<noteq> fresh h \<longrightarrow>
                  blocks h' a = (if ownScaledRadii s \<noteq> 0 \<and> scaledRadii s = Some a then None else blocks h a))
            \<and> written h' = written h @ map (Pair (fresh h)) [0..<length vs]
            \<and> oob h' = oob h @ map (Pair (fresh h)) [nat (numberOfAtoms s)..<length vs]
            \<and> (oob h' = oob h) = (length vs \<le> nat (numberOfAtoms s)))"
proof -
  from setScaledRadii_vec_result [OF assms, of vs h]
  obtain s' h' where r: "setScaledRadii_vec vs s h = Inr (s', h')"
    and s': "s' = s\<lparr>ownScaledRadii := 1, scaledRadii := Some (fresh h)\<rparr>"
    and b: "blocks h' (fresh h) =
              Some (map Some (take (nat (numberOfAtoms s)) vs)
                    @ replicate (nat (numberOfAtoms s) - length vs) None)"
    and w: "written h' = written h @ map (Pair (fresh h)) [0..<length vs]"
    and ob: "oob h' = oob h @ map (Pair (fresh h)) [nat (numberOfAtoms s)..<length vs]"
    by blast
  have f: "scaledRadii s' = Some (fresh h)" using s' by simp
  have len: "map_option length (blocks h' (fresh h)) = Some (nat (numberOfAtoms s))"
    using b by (simp add: min_def)
  have others: "\<forall>a. a \<noteq> fresh h \<longrightarrow>
                blocks h' a = (if ownScaledRadii s \<noteq> 0 \<and> scaledRadii s = Some a then None else blocks h a)"
    using setScaledRadii_vec_other_blocks [OF r] by blast
  have inside: "(oob h' = oob h) = (length vs \<le> nat (numberOfAtoms s))"
    using ob by auto
  show ?thesis using r s' f b len others w ob inside by blast
qed

lemma setGammaParameters_vec_copy:
  assumes "0 \<le> numberOfAtoms s"
  shows "(\<exists>s' h'. setGammaParameters_vec vs s h = Inr (s', h')
            \<and> s' = s\<lparr>ownGammaParameters := 1, gammaParameters := Some (fresh h)\<rparr>
            \<and> gammaParameters s' = Some (fresh h)
            \<and> blocks h' (fresh h) =
                  Some (map Some (take (nat (numberOfAtoms s)) vs)
                        @ replicate (nat (numberOfAtoms s) - length vs) None)
            \<and> map_option length (blocks h' (fresh h)) = Some (nat (numberOfAtoms s))
            \<and> (\<forall>a. a \<noteq> fresh h \<longrightarrow>
                  blocks h' a = (if ownGammaParameters s \<noteq> 0 \<and> gammaParameters s = Some a then None else blocks h a))
            \<and> written h' = written h @ map (Pair (fresh h)) [0..<length vs]
            \<and> oob h' = oob h @ map (Pair (fresh h)) [nat (numberOfAtoms s)..<length vs]
            \<and> (oob h' = oob h) = (length vs \<le> nat (numberOfAtoms s)))"
proof -
  from setGammaParameters_vec_result [OF assms, of vs h]
  obtain s' h' where r: "setGammaParameters_vec vs s h = Inr (s', h')"
    and s': "s' = s\<lparr>ownGammaParameters := 1, gammaParameters := Some (fresh h)\<rparr>"
    and b: "blocks h' (fresh h) =
              Some (map Some (take (nat (numberOfAtoms s)) vs)
                    @ replicate (nat (numberOfAtoms s) - length vs) None)"
    and w: "written h' = written h @ map (Pair (fresh h)) [0..<length vs]"
    and ob: "oob h' = oob h @ map (Pair (fresh h)) [nat (numberOfAtoms s)..<length vs]"
    by blast
  have f: "gammaParameters s' = Some (fresh h)" using s' by simp
  have len: "map_option length (blocks h' (fresh h)) = Some (nat (numberOfAtoms s))"
    using b by (simp add: min_def)
  have others: "\<forall>a. a \<noteq> fresh h \<longrightarrow>
                blocks h' a = (if ownGammaParameters s \<noteq> 0 \<and> gammaParameters s = Some a then None else blocks h a)"
    using setGammaParameters_vec_other_blocks [OF r] by blast
  have inside: "(oob h' = oob h) = (length vs \<le> nat (numberOfAtoms s))"
    using ob by auto
  show ?thesis using r s' f b len others w ob inside by blast
qed

lemma setBornRadiusScaleFactors_vec_copy:
  assumes "0 \<le> numberOfAtoms s"
  shows "(\<exists>s' h'. setBornRadiusScaleFactors_vec vs s h = Inr (s', h')
            \<and> s' = s\<lparr>ownBornRadiusScaleFactors := 1, bornRadiusScaleFactors := Some (fresh h)\<rparr>
            \<and> bornRadiusScaleFactors s' = Some (fresh h)
            \<and> blocks h' (fresh h) =
                  Some (map Some (take (nat (numberOfAtoms s)) vs)
                        @ replicate (nat (numberOfAtoms s) - length vs) None)
            \<and> map_option length (blocks h' (fresh h)) = Some (nat (numberOfAtoms s))
            \<and> (\<forall>a. a \<noteq> fresh h \<longrightarrow>
                  blocks h' a = (if ownBornRadiusScaleFactors s \<noteq> 0 \<and> bornRadiusScaleFactors s = Some a then None else blocks h a))
            \<and> written h' = written h @ map (Pair (fresh h)) [0..<length vs]
            \<and> oob h' = oob h @ map (Pair (fresh h)) [nat (numberOfAtoms s)..<length vs]
            \<and> (oob h' = oob h) = (length vs \<le> nat (numberOfAtoms s)))"
proof -
  from setBornRadiusScaleFactors_vec_result [OF assms, of vs h]
  obtain s' h' where r: "setBornRadiusScaleFactors_vec vs s h = Inr (s', h')"
    and s': "s' = s\<lparr>ownBornRadiusScaleFactors := 1, bornRadiusScaleFactors := Some (fresh h)\<rparr>"
    and b: "blocks h' (fresh h) =
              Some (map Some (take (nat (numberOfAtoms s)) vs)
                    @ replicate (nat (numberOfAtoms s) - length vs) None)"
    and w: "written h' = written h @ map (Pair (fresh h)) [0..<length vs]"
    and ob: "oob h' = oob h @ map (Pair (fresh h)) [nat (numberOfAtoms s)..<length vs]"
    by blast
  have f: "bornRadiusScaleFactors s' = Some (fresh h)" using s' by simp
  have len: "map_option length (blocks h' (fresh h)) = Some (nat (numberOfAtoms s))"
    using b by (simp add: min_def)
  have others: "\<forall>a. a \<noteq> fresh h \<longrightarrow>
                blocks h' a = (if ownBornRadiusScaleFactors s \<noteq> 0 \<and> bornRadiusScaleFactors s = Some a then None else blocks h a)"
    using setBornRadiusScaleFactors_vec_other_blocks [OF r] by blast
  have inside: "(oob h' = oob h) = (length vs \<le> nat (numberOfAtoms s))"
    using ob by auto
  show ?thesis using r s' f b len others w ob inside by blast
qed

text \<open>
  C6: for an atom count \<open>N \<ge> 0\<close> (so that the allocation succeeds) and a vector whose
  length an \<^verbatim>\<open>int\<close> can hold, each of the setters taking a vector returns normally,
  whatever the length: it allocates an array of \<open>N\<close> elements with \<^verbatim>\<open>new[]\<close>, sets the
  ownership flag and installs the array, and its copy loop stores exactly
  \<open>values.size()\<close> elements, \<open>values[i]\<close> at index \<open>i\<close> for \<open>i = 0 .. values.size() - 1\<close>.
  Afterwards the array holds the first \<open>min N (values.size())\<close> elements of the vector,
  followed by uninitialised elements; every other array of the store is as before,
  except that an array the slot owned is gone. The stores at the indices
  \<open>N .. values.size() - 1\<close> are the ones outside the allocation, so all stores lie inside
  it exactly when \<open>values.size() \<le> N\<close>. The length is neither tested nor reported.
\<close>
theorem vector_setters_copy_unchecked:
  "0 \<le> numberOfAtoms s \<and> length vs \<le> INT_MAX \<longrightarrow>
     (\<exists>s' h'. setScaledRadii_vec vs s h = Inr (s', h')
          \<and> s' = s\<lparr>ownScaledRadii := 1, scaledRadii := Some (fresh h)\<rparr>
          \<and> scaledRadii s' = Some (fresh h)
          \<and> blocks h' (fresh h) =
                Some (map Some (take (nat (numberOfAtoms s)) vs)
                      @ replicate (nat (numberOfAtoms s) - length vs) None)
          \<and> map_option length (blocks h' (fresh h)) = Some (nat (numberOfAtoms s))
          \<and> (\<forall>a. a \<noteq> fresh h \<longrightarrow>
                blocks h' a = (if ownScaledRadii s \<noteq> 0 \<and> scaledRadii s = Some a then None else blocks h a))
          \<and> written h' = written h @ map (Pair (fresh h)) [0..<length vs]
          \<and> oob h' = oob h @ map (Pair (fresh h)) [nat (numberOfAtoms s)..<length vs]
          \<and> (oob h' = oob h) = (length vs \<le> nat (numberOfAtoms s)))
     \<and> (\<exists>s' h'. setGammaParameters_vec vs s h = Inr (s', h')
          \<and> s' = s\<lparr>ownGammaParameters := 1, gammaParameters := Some (fresh h)\<rparr>
          \<and> gammaParameters s' = Some (fresh h)
          \<and> blocks h' (fresh h) =
                Some (map Some (take (nat (numberOfAtoms s)) vs)
                      @ replicate (nat (numberOfAtoms s) - length vs) None)
          \<and> map_option length (blocks h' (fresh h)) = Some (nat (numberOfAtoms s))
          \<and> (\<forall>a. a \<noteq> fresh h \<longrightarrow>
                blocks h' a = (if ownGammaParameters s \<noteq> 0 \<and> gammaParameters s = Some a then None else blocks h a))
          \<and> written h' = written h @ map (Pair (fresh h)) [0..<length vs]
          \<and> oob h' = oob h @ map (Pair (fresh h)) [nat (numberOfAtoms s)..<length vs]
          \<and> (oob h' = oob h) = (length vs \<le> nat (numberOfAtoms s)))
     \<and> (\<exists>s' h'. setBornRadiusScaleFactors_vec vs s h = Inr (s', h')
          \<and> s' = s\<lparr>ownBornRadiusScaleFactors := 1, bornRadiusScaleFactors := Some (fresh h)\<rparr>
          \<and> bornRadiusScaleFactors s' = Some (fresh h)
          \<and> blocks h' (fresh h) =
                Some (map Some (take (nat (numberOfAtoms s)) vs)
                      @ replicate (nat (numberOfAtoms s) - length vs) None)
          \<and> map_option length (blocks h' (fresh h)) = Some (nat (numberOfAtoms s))
          \<and> (\<forall>a. a \<noteq> fresh h \<longrightarrow>
                blocks h' a = (if ownBornRadiusScaleFactors s \<noteq> 0 \<and> bornRadiusScaleFactors s = Some a then None else blocks h a))
          \<and> written h' = written h @ map (Pair (fresh h)) [0..<length vs]
          \<and> oob h' = oob h @ map (Pair (fresh h)) [nat (numberOfAtoms s)..<length vs]
          \<and> (oob h' = oob h) = (length vs \<le> nat (numberOfAtoms s)))"
proof (rule impI)
  assume a: "0 \<le> numberOfAtoms s \<and> length vs \<le> INT_MAX"
  then have n: "0 \<le> numberOfAtoms s" by simp
  show "(\<exists>s' h'. setScaledRadii_vec vs s h = Inr (s', h')
          \<and> s' = s\<lparr>ownScaledRadii := 1, scaledRadii := Some (fresh h)\<rparr>
          \<and> scaledRadii s' = Some (fresh h)
          \<and> blocks h' (fresh h) =
                Some (map Some (take (nat (numberOfAtoms s)) vs)
                      @ replicate (nat (numberOfAtoms s) - length vs) None)
          \<and> map_option length (blocks h' (fresh h)) = Some (nat (numberOfAtoms s))
          \<and> (\<forall>a. a \<noteq> fresh h \<longrightarrow>
                blocks h' a = (if ownScaledRadii s \<noteq> 0 \<and> scaledRadii s = Some a then None else blocks h a))
          \<and> written h' = written h @ map (Pair (fresh h)) [0..<length vs]
          \<and> oob h' = oob h @ map (Pair (fresh h)) [nat (numberOfAtoms s)..<length vs]
          \<and> (oob h' = oob h) = (length vs \<le> nat (numberOfAtoms s)))
     \<and> (\<exists>s' h'. setGammaParameters_vec vs s h = Inr (s', h')
          \<and> s' = s\<lparr>ownGammaParameters := 1, gammaParameters := Some (fresh h)\<rparr>
          \<and> gammaParameters s' = Some (fresh h)
          \<and> blocks h' (fresh h) =
                Some (map Some (take (nat (numberOfAtoms s)) vs)
                      @ replicate (nat (numberOfAtoms s) - length vs) None)
          \<and> map_option length (blocks h' (fresh h)) = Some (nat (numberOfAtoms s))
          \<and> (\<forall>a. a \<noteq> fresh h \<longrightarrow>
                blocks h' a = (if ownGammaParameters s \<noteq> 0 \<and> gammaParameters s = Some a then None else blocks h a))
          \<and> written h' = written h @ map (Pair (fresh h)) [0..<length vs]
          \<and> oob h' = oob h @ map (Pair (fresh h)) [nat (numberOfAtoms s)..<length vs]
          \<and> (oob h' = oob h) = (length vs \<le> nat (numberOfAtoms s)))
     \<and> (\<exists>s' h'. setBornRadiusScaleFactors_vec vs s h = Inr (s', h')
          \<and> s' = s\<lparr>ownBornRadiusScaleFactors := 1, bornRadiusScaleFactors := Some (fresh h)\<rparr>
          \<and> bornRadiusScaleFactors s' = Some (fresh h)
          \<and> blocks h' (fresh h) =
                Some (map Some (take (nat (numberOfAtoms s)) vs)
                      @ replicate (nat (numberOfAtoms s) - length vs) None)
          \<and> map_option length (blocks h' (fresh h)) = Some (nat (numberOfAtoms s))
          \<and> (\<forall>a. a \<noteq> fresh h \<longrightarrow>
                blocks h' a = (if ownBornRadiusScaleFactors s \<noteq> 0 \<and> bornRadiusScaleFactors s = Some a then None else blocks h a))
          \<and> written h' = written h @ map (Pair (fresh h)) [0..<length vs]
          \<and> oob h' = oob h @ map (Pair (fresh h)) [nat (numberOfAtoms s)..<length vs]
          \<and> (oob h' = oob h) = (length vs \<le> nat (numberOfAtoms s)))"
    by (rule conjI [OF setScaledRadii_vec_copy [OF n]
                   conjI [OF setGammaParameters_vec_copy [OF n]
                             setBornRadiusScaleFactors_vec_copy [OF n]]])
qed

theorem vector_setters_copy_unchecked_witness:
  "(\<exists>s' h'. setScaledRadii_vec [1, 2, 3] (new_GBVISoftcoreParameters 2 1 78) empty_store = Inr (s', h')
          \<and> scaledRadii s' = Some 0
          \<and> blocks h' 0 = Some [Some 1, Some 2]
          \<and> written h' = [(0, 0), (0, 1), (0, 2)]
          \<and> oob h' = [(0, 2)])
   \<and> (\<exists>s' h'. setGammaParameters_vec [1, 2, 3] (new_GBVISoftcoreParameters 2 1 78) empty_store = Inr (s', h')
          \<and> gammaParameters s' = Some 0
          \<and> blocks h' 0 = Some [Some 1, Some 2]
          \<and> written h' = [(0, 0), (0, 1), (0, 2)]
          \<and> oob h' = [(0, 2)])
   \<and> (\<exists>s' h'. setBornRadiusScaleFactors_vec [1, 2, 3] (new_GBVISoftcoreParameters 2 1 78) empty_store = Inr (s', h')
          \<and> bornRadiusScaleFactors s' = Some 0
          \<and> blocks h' 0 = Some [Some 1, Some 2]
          \<and> written h' = [(0, 0), (0, 1), (0, 2)]
          \<and> oob h' = [(0, 2)])"
proof -
  let ?init = "new_GBVISoftcoreParameters 2 1 78"
  have pre: "0 \<le> numberOfAtoms ?init \<and> length [1, 2, 3 :: real] \<le> INT_MAX"
    by (simp add: new_fields INT_MAX_def)
  note inst = vector_setters_copy_unchecked [of ?init "[1, 2, 3]" empty_store, THEN mp, OF pre]
  have val: "numberOfAtoms ?init = 2" "fresh empty_store = 0"
    "written empty_store = []" "oob empty_store = []"
    by (simp_all add: new_fields empty_store_def)
  have upt: "[0..<3] = [0, 1, 2]" "[2..<3] = [2]" by (simp_all add: upt_conv_Cons)
  have w1: "(\<exists>s' h'. setScaledRadii_vec [1, 2, 3] (new_GBVISoftcoreParameters 2 1 78) empty_store = Inr (s', h')
            \<and> scaledRadii s' = Some 0
            \<and> blocks h' 0 = Some [Some 1, Some 2]
            \<and> written h' = [(0, 0), (0, 1), (0, 2)]
            \<and> oob h' = [(0, 2)])"
  proof -
    from inst [THEN conjunct1]
    obtain s' h' where r: "setScaledRadii_vec [1, 2, 3] ?init empty_store = Inr (s', h')"
      and f: "scaledRadii s' = Some (fresh empty_store)"
      and b: "blocks h' (fresh empty_store) =
                Some (map Some (take (nat (numberOfAtoms ?init)) [1, 2, 3])
                      @ replicate (nat (numberOfAtoms ?init) - length [1, 2, 3 :: real]) None)"
      and w: "written h' =
                written empty_store @ map (Pair (fresh empty_store)) [0..<length [1, 2, 3 :: real]]"
      and ob: "oob h' =
                oob empty_store
                @ map (Pair (fresh empty_store)) [nat (numberOfAtoms ?init)..<length [1, 2, 3 :: real]]"
      by blast
    have f0: "scaledRadii s' = Some 0" using f by (simp add: val)
    have b0: "blocks h' 0 = Some [Some 1, Some 2]"
      using b by (simp add: val numeral_2_eq_2)
    have w0: "written h' = [(0, 0), (0, 1), (0, 2)]" using w by (simp add: val upt)
    have ob0: "oob h' = [(0, 2)]" using ob by (simp add: val upt)
    show ?thesis using r f0 b0 w0 ob0 by blast
  qed
  have w2: "(\<exists>s' h'. setGammaParameters_vec [1, 2, 3] (new_GBVISoftcoreParameters 2 1 78) empty_store = Inr (s', h')
            \<and> gammaParameters s' = Some 0
            \<and> blocks h' 0 = Some [Some 1, Some 2]
            \<and> written h' = [(0, 0), (0, 1), (0, 2)]
            \<and> oob h' = [(0, 2)])"
  proof -
    from inst [THEN conjunct2, THEN conjunct1]
    obtain s' h' where r: "setGammaParameters_vec [1, 2, 3] ?init empty_store = Inr (s', h')"
      and f: "gammaParameters s' = Some (fresh empty_store)"
      and b: "blocks h' (fresh empty_store) =
                Some (map Some (take (nat (numberOfAtoms ?init)) [1, 2, 3])
                      @ replicate (nat (numberOfAtoms ?init) - length [1, 2, 3 :: real]) None)"
      and w: "written h' =
                written empty_store @ map (Pair (fresh empty_store)) [0..<length [1, 2, 3 :: real]]"
      and ob: "oob h' =
                oob empty_store
                @ map (Pair (fresh empty_store)) [nat (numberOfAtoms ?init)..<length [1, 2, 3 :: real]]"
      by blast
    have f0: "gammaParameters s' = Some 0" using f by (simp add: val)
    have b0: "blocks h' 0 = Some [Some 1, Some 2]"
      using b by (simp add: val numeral_2_eq_2)
    have w0: "written h' = [(0, 0), (0, 1), (0, 2)]" using w by (simp add: val upt)
    have ob0: "oob h' = [(0, 2)]" using ob by (simp add: val upt)
    show ?thesis using r f0 b0 w0 ob0 by blast
  qed
  have w3: "(\<exists>s' h'. setBornRadiusScaleFactors_vec [1, 2, 3] (new_GBVISoftcoreParameters 2 1 78) empty_store = Inr (s', h')
            \<and> bornRadiusScaleFactors s' = Some 0
            \<and> blocks h' 0 = Some [Some 1, Some 2]
            \<and> written h' = [(0, 0), (0, 1), (0, 2)]
            \<and> oob h' = [(0, 2)])"
  proof -
    from inst [THEN conjunct2, THEN conjunct2]
    obtain s' h' where r: "setBornRadiusScaleFactors_vec [1, 2, 3] ?init empty_store = Inr (s', h')"
      and f: "bornRadiusScaleFactors s' = Some (fresh empty_store)"
      and b: "blocks h' (fresh empty_store) =
                Some (map Some (take (nat (numberOfAtoms ?init)) [1, 2, 3])
                      @ replicate (nat (numberOfAtoms ?init) - length [1, 2, 3 :: real]) None)"
      and w: "written h' =
                written empty_store @ map (Pair (fresh empty_store)) [0..<length [1, 2, 3 :: real]]"
      and ob: "oob h' =
                oob empty_store
                @ map (Pair (fresh empty_store)) [nat (numberOfAtoms ?init)..<length [1, 2, 3 :: real]]"
      by blast
    have f0: "bornRadiusScaleFactors s' = Some 0" using f by (simp add: val)
    have b0: "blocks h' 0 = Some [Some 1, Some 2]"
      using b by (simp add: val numeral_2_eq_2)
    have w0: "written h' = [(0, 0), (0, 1), (0, 2)]" using w by (simp add: val upt)
    have ob0: "oob h' = [(0, 2)]" using ob by (simp add: val upt)
    show ?thesis using r f0 b0 w0 ob0 by blast
  qed
  show ?thesis by (rule conjI [OF w1 conjI [OF w2 w3]])
qed

text \<open>
  C3 (amended): for a positive atom count \<open>N\<close> and a vector shorter than \<open>N\<close>, setting the
  scaled radii of a freshly constructed container from the vector yields an array of \<open>N\<close>
  elements whose first \<open>values.size()\<close> elements are those of the vector, in order, and
  whose remaining \<open>N - values.size()\<close> elements are uninitialised: \<^verbatim>\<open>new RealOpenMM[N]\<close>
  does not zero the array and the loop does not reach them.
\<close>
theorem setScaledRadii_vec_shorter:
  "0 < n \<and> length vs < nat n \<longrightarrow>
     (\<exists>s' h'. setScaledRadii_vec vs (new_GBVISoftcoreParameters n e1 e0) h = Inr (s', h')
        \<and> scaledRadii s' = Some (fresh h)
        \<and> blocks h' (fresh h) = Some (map Some vs @ replicate (nat n - length vs) None))"
proof
  assume a: "0 < n \<and> length vs < nat n"
  have n: "0 \<le> numberOfAtoms (new_GBVISoftcoreParameters n e1 e0)"
    using a by (simp add: new_fields)
  from setScaledRadii_vec_result [OF n, of vs h]
  obtain s' h' where r: "setScaledRadii_vec vs (new_GBVISoftcoreParameters n e1 e0) h = Inr (s', h')"
    and s': "s' = (new_GBVISoftcoreParameters n e1 e0)\<lparr>ownScaledRadii := 1, scaledRadii := Some (fresh h)\<rparr>"
    and b: "blocks h' (fresh h) =
              Some (map Some (take (nat (numberOfAtoms (new_GBVISoftcoreParameters n e1 e0))) vs)
                    @ replicate (nat (numberOfAtoms (new_GBVISoftcoreParameters n e1 e0)) - length vs) None)"
    by blast
  have f: "scaledRadii s' = Some (fresh h)" using s' by simp
  have b': "blocks h' (fresh h) = Some (map Some vs @ replicate (nat n - length vs) None)"
    using b a by (simp add: new_fields)
  show "\<exists>s' h'. setScaledRadii_vec vs (new_GBVISoftcoreParameters n e1 e0) h = Inr (s', h')
        \<and> scaledRadii s' = Some (fresh h)
        \<and> blocks h' (fresh h) = Some (map Some vs @ replicate (nat n - length vs) None)"
    using r f b' by blast
qed

theorem setScaledRadii_vec_shorter_witness:
  "\<exists>s' h'. shorter_example = Inr (s', h') \<and> scaledRadii s' = Some 0
     \<and> blocks h' 0 = Some [Some 1, None]"
proof -
  have pre: "(0::int) < 2 \<and> length [1::real] < nat 2" by simp
  have val: "fresh empty_store = 0"
    "map Some [1::real] @ replicate (nat 2 - length [1::real]) None = [Some 1, None]"
    by (simp_all add: empty_store_def)
  show ?thesis
    using setScaledRadii_vec_shorter [of 2 "[1]" 1 78 empty_store] pre
    unfolding val shorter_example_def by blast
qed

text \<open>
  C3 as stated fails: with two atoms and the one-element vector \<open>[1]\<close>, the call returns
  normally, the new array is \<open>[1, _]\<close> with its second element uninitialised: the
  element at index 1 is not the value zero.
\<close>
theorem setScaledRadii_vec_tail_not_zero:
  "\<not> isl shorter_example
   \<and> scaledRadii (fst (projr shorter_example)) = Some 0
   \<and> blocks (snd (projr shorter_example)) 0 = Some [Some 1, None]
   \<and> the (blocks (snd (projr shorter_example)) 0) ! 1 \<noteq> Some 0"
proof -
  have n: "0 \<le> numberOfAtoms (new_GBVISoftcoreParameters 2 1 78)"
    by (simp add: new_fields)
  from setScaledRadii_vec_result [OF n, of "[1]" empty_store]
  obtain s' h' where r: "shorter_example = Inr (s', h')"
    and s': "s' = (new_GBVISoftcoreParameters 2 1 78)
                    \<lparr>ownScaledRadii := 1, scaledRadii := Some (fresh empty_store)\<rparr>"
    and b: "blocks h' (fresh empty_store) =
              Some (map Some (take (nat (numberOfAtoms (new_GBVISoftcoreParameters 2 1 78))) [1])
                    @ replicate (nat (numberOfAtoms (new_GBVISoftcoreParameters 2 1 78)) - length [1::real]) None)"
    unfolding shorter_example_def by blast
  have f: "scaledRadii s' = Some 0" using s' by (simp add: empty_store_def)
  have b': "blocks h' 0 = Some [Some 1, None]"
    using b by (simp add: new_fields empty_store_def)
  show ?thesis by (simp add: r f b')
qed

subsection \<open>Sequences of calls\<close>

text \<open>
  The calls on the array slots leave the cutoff, the periodic box and the two upper
  limits of the spline alone.
\<close>

lemma getScaledRadii_config:
  "getScaledRadii s h = Inr (p, s', h') \<Longrightarrow>
   cutoff s' = cutoff s \<and> cutoffDistance s' = cutoffDistance s
   \<and> periodic s' = periodic s \<and> periodicBoxSize s' = periodicBoxSize s
   \<and> quinticUpperBornRadiusLimit s' = quinticUpperBornRadiusLimit s
   \<and> quinticUpperSplineLimit s' = quinticUpperSplineLimit s"
  by (cases "scaledRadii s = None"; cases "numberOfAtoms s < 0")
     (auto simp add: getScaledRadii_def new_array_def getNumberOfAtoms_def Let_def)

lemma setScaledRadii_vec_config:
  "setScaledRadii_vec vs s h = Inr (s', h') \<Longrightarrow>
   cutoff s' = cutoff s \<and> cutoffDistance s' = cutoffDistance s
   \<and> periodic s' = periodic s \<and> periodicBoxSize s' = periodicBoxSize s
   \<and> quinticUpperBornRadiusLimit s' = quinticUpperBornRadiusLimit s
   \<and> quinticUpperSplineLimit s' = quinticUpperSplineLimit s"
  by (cases "numberOfAtoms s < 0")
     (auto simp add: setScaledRadii_vec_def new_array_def getNumberOfAtoms_def Let_def)

lemma setScaledRadii_ptr_config:
  "setScaledRadii_ptr p s h = (s', h') \<Longrightarrow>
   cutoff s' = cutoff s \<and> cutoffDistance s' = cutoffDistance s
   \<and> periodic s' = periodic s \<and> periodicBoxSize s' = periodicBoxSize s
   \<and> quinticUpperBornRadiusLimit s' = quinticUpperBornRadiusLimit s
   \<and> quinticUpperSplineLimit s' = quinticUpperSplineLimit s"
  by (cases "ownScaledRadii s \<noteq> 0 \<and> scaledRadii s \<noteq> p")
     (auto simp add: setScaledRadii_ptr_def)

lemma getGammaParameters_config:
  "getGammaParameters s h = Inr (p, s', h') \<Longrightarrow>
   cutoff s' = cutoff s \<and> cutoffDistance s' = cutoffDistance s
   \<and> periodic s' = periodic s \<and> periodicBoxSize s' = periodicBoxSize s
   \<and> quinticUpperBornRadiusLimit s' = quinticUpperBornRadiusLimit s
   \<and> quinticUpperSplineLimit s' = quinticUpperSplineLimit s"
  by (cases "gammaParameters s = None"; cases "numberOfAtoms s < 0")
     (auto simp add: getGammaParameters_def new_array_def getNumberOfAtoms_def Let_def)

lemma setGammaParameters_vec_config:
  "setGammaParameters_vec vs s h = Inr (s', h') \<Longrightarrow>
   cutoff s' = cutoff s \<and> cutoffDistance s' = cutoffDistance s
   \<and> periodic s' = periodic s \<and> periodicBoxSize s' = periodicBoxSize s
   \<and> quinticUpperBornRadiusLimit s' = quinticUpperBornRadiusLimit s
   \<and> quinticUpperSplineLimit s' = quinticUpperSplineLimit s"
  by (cases "numberOfAtoms s < 0")
     (auto simp add: setGammaParameters_vec_def new_array_def getNumberOfAtoms_def Let_def)

lemma setGammaParameters_ptr_config:
  "setGammaParameters_ptr p s h = (s', h') \<Longrightarrow>
   cutoff s' = cutoff s \<and> cutoffDistance s' = cutoffDistance s
   \<and> periodic s' = periodic s \<and> periodicBoxSize s' = periodicBoxSize s
   \<and> quinticUpperBornRadiusLimit s' = quinticUpperBornRadiusLimit s
   \<and> quinticUpperSplineLimit s' = quinticUpperSplineLimit s"
  by (cases "ownGammaParameters s \<noteq> 0 \<and> gammaParameters s \<noteq> p")
     (auto simp add: setGammaParameters_ptr_def)

lemma getBornRadiusScaleFactors_config:
  "getBornRadiusScaleFactors s h = Inr (p, s', h') \<Longrightarrow>
   cutoff s' = cutoff s \<and> cutoffDistance s' = cutoffDistance s
   \<and> periodic s' = periodic s \<and> periodicBoxSize s' = periodicBoxSize s
   \<and> quinticUpperBornRadiusLimit s' = quinticUpperBornRadiusLimit s
   \<and> quinticUpperSplineLimit s' = quinticUpperSplineLimit s"
  by (cases "bornRadiusScaleFactors s = None"; cases "numberOfAtoms s < 0")
     (auto simp add: getBornRadiusScaleFactors_def new_array_def getNumberOfAtoms_def Let_def)

lemma setBornRadiusScaleFactors_vec_config:
  "setBornRadiusScaleFactors_vec vs s h = Inr (s', h') \<Longrightarrow>
   cutoff s' = cutoff s \<and> cutoffDistance s' = cutoffDistance s
   \<and> periodic s' = periodic s \<and> periodicBoxSize s' = periodicBoxSize s
   \<and> quinticUpperBornRadiusLimit s' = quinticUpperBornRadiusLimit s
   \<and> quinticUpperSplineLimit s' = quinticUpperSplineLimit s"
  by (cases "numberOfAtoms s < 0")
     (auto simp add: setBornRadiusScaleFactors_vec_def new_array_def getNumberOfAtoms_def Let_def)

lemma setBornRadiusScaleFactors_ptr_config:
  "setBornRadiusScaleFactors_ptr p s h = (s', h') \<Longrightarrow>
   cutoff s' = cutoff s \<and> cutoffDistance s' = cutoffDistance s
   \<and> periodic s' = periodic s \<and> periodicBoxSize s' = periodicBoxSize s
   \<and> quinticUpperBornRadiusLimit s' = quinticUpperBornRadiusLimit s
   \<and> quinticUpperSplineLimit s' = quinticUpperSplineLimit s"
  by (cases "ownBornRadiusScaleFactors s \<noteq> 0 \<and> bornRadiusScaleFactors s \<noteq> p")
     (auto simp add: setBornRadiusScaleFactors_ptr_def)

lemma setPeriodic_config:
  "setPeriodic b s = Inr s' \<Longrightarrow>
   cutoff s' = cutoff s \<and> cutoffDistance s' = cutoffDistance s
   \<and> quinticUpperBornRadiusLimit s' = quinticUpperBornRadiusLimit s
   \<and> quinticUpperSplineLimit s' = quinticUpperSplineLimit s"
  by (auto simp add: setPeriodic_def split: if_splits option.splits)

text \<open>What a single call leaves unchanged.\<close>
lemma call_config:
  assumes "call c (s, h) = Inr (s', h')"
  shows "(\<not> is_SetUseCutoff c \<longrightarrow>
            cutoff s' = cutoff s \<and> cutoffDistance s' = cutoffDistance s)
       \<and> ((\<forall>b. c \<noteq> SetPeriodic b) \<longrightarrow>
            periodic s' = periodic s \<and> periodicBoxSize s' = periodicBoxSize s)
       \<and> ((\<forall>v. c \<noteq> SetQuinticUpperBornRadiusLimit v) \<longrightarrow>
            quinticUpperBornRadiusLimit s' = quinticUpperBornRadiusLimit s
            \<and> quinticUpperSplineLimit s' = quinticUpperSplineLimit s)"
proof (cases c)
  case (SetQuinticLowerLimitFactor v)
  then show ?thesis using assms by (auto simp add: setQuinticLowerLimitFactor_def)
next
  case (SetQuinticUpperBornRadiusLimit v)
  then show ?thesis using assms by (auto simp add: setQuinticUpperBornRadiusLimit_def Let_def)
next
  case (SetBornRadiusScalingSoftcoreMethod m)
  then show ?thesis using assms by (auto simp add: setBornRadiusScalingSoftcoreMethod_def)
next
  case (SetUseCutoff d)
  then show ?thesis using assms by (auto simp add: setUseCutoff_def)
next
  case (SetPeriodic b)
  then obtain s1 where "setPeriodic b s = Inr s1" and "s' = s1"
    using assms by (auto split: sum.splits)
  then show ?thesis using SetPeriodic setPeriodic_config [of b s s'] by simp
next
  case GetScaledRadii
  then obtain p where "getScaledRadii s h = Inr (p, s', h')"
    using assms by (auto simp add: discard_result_def split: sum.splits)
  then show ?thesis using GetScaledRadii getScaledRadii_config [of s h p s' h'] by simp
next
  case (SetOwnScaledRadii f)
  then show ?thesis using assms by (auto simp add: setOwnScaledRadii_def)
next
  case (SetScaledRadii_ptr p)
  then have "setScaledRadii_ptr p s h = (s', h')" using assms by simp
  then show ?thesis using SetScaledRadii_ptr setScaledRadii_ptr_config [of p s h s' h'] by simp
next
  case (SetScaledRadii_vec vs)
  then have "setScaledRadii_vec vs s h = Inr (s', h')" using assms by simp
  then show ?thesis using SetScaledRadii_vec setScaledRadii_vec_config [of vs s h s' h'] by simp
next
  case GetGammaParameters
  then obtain p where "getGammaParameters s h = Inr (p, s', h')"
    using assms by (auto simp add: discard_result_def split: sum.splits)
  then show ?thesis using GetGammaParameters getGammaParameters_config [of s h p s' h'] by simp
next
  case (SetOwnGammaParameters f)
  then show ?thesis using assms by (auto simp add: setOwnGammaParameters_def)
next
  case (SetGammaParameters_ptr p)
  then have "setGammaParameters_ptr p s h = (s', h')" using assms by simp
  then show ?thesis using SetGammaParameters_ptr setGammaParameters_ptr_config [of p s h s' h'] by simp
next
  case (SetGammaParameters_vec vs)
  then have "setGammaParameters_vec vs s h = Inr (s', h')" using assms by simp
  then show ?thesis using SetGammaParameters_vec setGammaParameters_vec_config [of vs s h s' h'] by simp
next
  case GetBornRadiusScaleFactors
  then obtain p where "getBornRadiusScaleFactors s h = Inr (p, s', h')"
    using assms by (auto simp add: discard_result_def split: sum.splits)
  then show ?thesis using GetBornRadiusScaleFactors getBornRadiusScaleFactors_config [of s h p s' h'] by simp
next
  case (SetOwnBornRadiusScaleFactors f)
  then show ?thesis using assms by (auto simp add: setOwnBornRadiusScaleFactors_def)
next
  case (SetBornRadiusScaleFactors_ptr p)
  then have "setBornRadiusScaleFactors_ptr p s h = (s', h')" using assms by simp
  then show ?thesis using SetBornRadiusScaleFactors_ptr setBornRadiusScaleFactors_ptr_config [of p s h s' h'] by simp
next
  case (SetBornRadiusScaleFactors_vec vs)
  then have "setBornRadiusScaleFactors_vec vs s h = Inr (s', h')" using assms by simp
  then show ?thesis using SetBornRadiusScaleFactors_vec setBornRadiusScaleFactors_vec_config [of vs s h s' h'] by simp
qed

lemma run_Cons_Inr:
  assumes "run (c # cs) w = Inr w'"
  obtains w1 where "call c w = Inr w1" and "run cs w1 = Inr w'"
  using assms by (cases "call c w") auto

lemma is_SetUseCutoff_iff: "is_SetUseCutoff c = (\<exists>d. c = SetUseCutoff d)"
  by (cases c) auto

subsection \<open>The upper limits of the quintic spline\<close>

lemma last_upper_limit_other:
  "(\<And>v. c \<noteq> SetQuinticUpperBornRadiusLimit v) \<Longrightarrow>
   last_upper_limit l (c # cs) = last_upper_limit l cs"
  by (cases c) auto

lemma call_limits:
  assumes "call c (s, h) = Inr (s', h')"
    and "quinticUpperSplineLimit s = POW (quinticUpperBornRadiusLimit s) (- 3)"
  shows "quinticUpperBornRadiusLimit s' = last_upper_limit (quinticUpperBornRadiusLimit s) [c]
         \<and> quinticUpperSplineLimit s' = POW (quinticUpperBornRadiusLimit s') (- 3)"
proof (cases "\<exists>v. c = SetQuinticUpperBornRadiusLimit v")
  case True
  then obtain v where "c = SetQuinticUpperBornRadiusLimit v" by blast
  then show ?thesis
    using assms(1) by (auto simp add: setQuinticUpperBornRadiusLimit_def Let_def)
next
  case False
  then have "last_upper_limit (quinticUpperBornRadiusLimit s) [c] = quinticUpperBornRadiusLimit s"
    by (simp add: last_upper_limit_other)
  then show ?thesis using call_config [OF assms(1)] False assms(2) by simp
qed

lemma last_upper_limit_Cons:
  "last_upper_limit l (c # cs) = last_upper_limit (last_upper_limit l [c]) cs"
  by (cases c) auto

lemma run_limits:
  assumes "run cs (s, h) = Inr (s', h')"
    and "quinticUpperSplineLimit s = POW (quinticUpperBornRadiusLimit s) (- 3)"
  shows "quinticUpperBornRadiusLimit s' = last_upper_limit (quinticUpperBornRadiusLimit s) cs
         \<and> quinticUpperSplineLimit s' = POW (quinticUpperBornRadiusLimit s') (- 3)"
  using assms
proof (induction cs arbitrary: s h)
  case Nil
  then show ?case by simp
next
  case (Cons c cs)
  from Cons.prems(1) obtain w1 where c: "call c (s, h) = Inr w1" and r: "run cs w1 = Inr (s', h')"
    by (rule run_Cons_Inr)
  obtain s1 h1 where w1: "w1 = (s1, h1)" by (cases w1)
  have step: "quinticUpperBornRadiusLimit s1 = last_upper_limit (quinticUpperBornRadiusLimit s) [c]
         \<and> quinticUpperSplineLimit s1 = POW (quinticUpperBornRadiusLimit s1) (- 3)"
    using call_limits [OF c [unfolded w1] Cons.prems(2)] .
  have "quinticUpperBornRadiusLimit s' = last_upper_limit (quinticUpperBornRadiusLimit s1) cs
         \<and> quinticUpperSplineLimit s' = POW (quinticUpperBornRadiusLimit s') (- 3)"
    using Cons.IH [OF r [unfolded w1]] step by simp
  then show ?case
    using step last_upper_limit_Cons [of "quinticUpperBornRadiusLimit s" c cs] by simp
qed

lemma new_limits:
  "quinticUpperBornRadiusLimit (new_GBVISoftcoreParameters n e1 e0) = 5"
  "quinticUpperSplineLimit (new_GBVISoftcoreParameters n e1 e0) = POW 5 (- 3)"
  by (simp_all add: new_GBVISoftcoreParameters_def setQuinticUpperBornRadiusLimit_def Let_def)

lemma POW_minus_3: "0 < x \<Longrightarrow> POW x (- 3) = 1 / x ^ 3"
  by (simp add: POW_def powr_neg_numeral)

text \<open>
  C5: after construction and any sequence of calls that returns, the upper Born radius
  limit is the argument of the last \<open>setQuinticUpperBornRadiusLimit\<close> (5 when there was
  none), and \<open>getQuinticUpperSplineLimit\<close> is \<open>POW\<close> of that limit and \<open>-3\<close>: for a
  positive limit \<open>l\<close>, the value \<open>1 / l\<^sup>3\<close>.
\<close>
theorem upper_spline_limit_consistent:
  "run cs (new_GBVISoftcoreParameters n e1 e0, h) = Inr (s, h') \<longrightarrow>
     getQuinticUpperBornRadiusLimit s = last_upper_limit 5 cs
     \<and> getQuinticUpperSplineLimit s = POW (getQuinticUpperBornRadiusLimit s) (- 3)
     \<and> (0 < getQuinticUpperBornRadiusLimit s \<longrightarrow>
          getQuinticUpperSplineLimit s = 1 / getQuinticUpperBornRadiusLimit s ^ 3)"
proof
  assume r: "run cs (new_GBVISoftcoreParameters n e1 e0, h) = Inr (s, h')"
  have "quinticUpperBornRadiusLimit s = last_upper_limit 5 cs
        \<and> quinticUpperSplineLimit s = POW (quinticUpperBornRadiusLimit s) (- 3)"
    using run_limits [OF r] by (simp add: new_limits)
  then show "getQuinticUpperBornRadiusLimit s = last_upper_limit 5 cs
     \<and> getQuinticUpperSplineLimit s = POW (getQuinticUpperBornRadiusLimit s) (- 3)
     \<and> (0 < getQuinticUpperBornRadiusLimit s \<longrightarrow>
          getQuinticUpperSplineLimit s = 1 / getQuinticUpperBornRadiusLimit s ^ 3)"
    by (simp add: getQuinticUpperBornRadiusLimit_def getQuinticUpperSplineLimit_def POW_minus_3)
qed

lemma limits_example_run:
  "run limits_example (new_GBVISoftcoreParameters 3 1 78, empty_store) =
     Inr ((new_GBVISoftcoreParameters 3 1 78)
            \<lparr>cutoff := True, cutoffDistance := Some 5, quinticLowerLimitFactor := 1,
             quinticUpperBornRadiusLimit := 4, quinticUpperSplineLimit := POW 4 (- 3)\<rparr>,
          empty_store)"
  by (simp add: limits_example_def setQuinticUpperBornRadiusLimit_def Let_def
      setUseCutoff_def setQuinticLowerLimitFactor_def new_GBVISoftcoreParameters_def)

theorem upper_spline_limit_consistent_witness:
  "\<exists>s h'. run limits_example (new_GBVISoftcoreParameters 3 1 78, empty_store) = Inr (s, h')
     \<and> getQuinticUpperBornRadiusLimit s = 4
     \<and> getQuinticUpperSplineLimit s = 1 / 64"
proof -
  let ?s = "(new_GBVISoftcoreParameters 3 1 78)
            \<lparr>cutoff := True, cutoffDistance := Some 5, quinticLowerLimitFactor := 1,
             quinticUpperBornRadiusLimit := 4, quinticUpperSplineLimit := POW 4 (- 3)\<rparr>"
  have l: "last_upper_limit 5 limits_example = 4" by (simp add: limits_example_def)
  have a: "getQuinticUpperBornRadiusLimit ?s = last_upper_limit 5 limits_example"
    and b: "0 < getQuinticUpperBornRadiusLimit ?s \<longrightarrow>
            getQuinticUpperSplineLimit ?s = 1 / getQuinticUpperBornRadiusLimit ?s ^ 3"
    using upper_spline_limit_consistent [of limits_example 3 1 78 empty_store ?s empty_store]
      limits_example_run
    by blast+
  have four: "getQuinticUpperBornRadiusLimit ?s = 4" using a l by simp
  have "getQuinticUpperSplineLimit ?s = 1 / 64" using b unfolding four by simp
  then show ?thesis using limits_example_run four by blast
qed

subsection \<open>Cutoff and periodic box along a sequence of calls\<close>

lemma setPeriodic_establishes:
  assumes "setPeriodic b s = Inr s'"
  shows "periodic s' \<and> cutoff s' \<and> box_at_least_twice_cutoff s'"
  using assms
  by (auto simp add: setPeriodic_def box_at_least_twice_cutoff_def
      split: if_splits option.splits)

lemma call_SetPeriodic:
  assumes "call (SetPeriodic b) (s, h) = Inr (s', h')"
  shows "setPeriodic b s = Inr s'"
  using assms by (auto split: sum.splits)

lemma box_at_least_twice_cutoff_cong:
  "cutoffDistance s' = cutoffDistance s \<Longrightarrow> periodicBoxSize s' = periodicBoxSize s \<Longrightarrow>
   box_at_least_twice_cutoff s' = box_at_least_twice_cutoff s"
  by (simp add: box_at_least_twice_cutoff_def)

lemma call_periodic_needs_cutoff:
  assumes "call c (s, h) = Inr (s', h')" and "periodic s \<longrightarrow> cutoff s"
  shows "periodic s' \<longrightarrow> cutoff s'"
proof (cases "is_SetUseCutoff c")
  case True
  then obtain d where "c = SetUseCutoff d" by (auto simp add: is_SetUseCutoff_iff)
  then show ?thesis using assms(1) by (auto simp add: setUseCutoff_def)
next
  case False
  note nc = False
  show ?thesis
  proof (cases "\<exists>b. c = SetPeriodic b")
    case True
    then obtain b where "c = SetPeriodic b" by blast
    then show ?thesis
      using setPeriodic_establishes [OF call_SetPeriodic, of b s h s' h'] assms(1) by simp
  next
    case False
    then show ?thesis using call_config [OF assms(1)] nc assms(2) by simp
  qed
qed

lemma call_keeps_box_invariant:
  assumes "call c (s, h) = Inr (s', h')" and "\<not> is_SetUseCutoff c"
    and "periodic s \<longrightarrow> box_at_least_twice_cutoff s"
  shows "periodic s' \<longrightarrow> box_at_least_twice_cutoff s'"
proof (cases "\<exists>b. c = SetPeriodic b")
  case True
  then obtain b where "c = SetPeriodic b" by blast
  then show ?thesis
    using setPeriodic_establishes [OF call_SetPeriodic, of b s h s' h'] assms(1) by simp
next
  case False
  then have "periodic s' = periodic s" "periodicBoxSize s' = periodicBoxSize s"
    "cutoffDistance s' = cutoffDistance s"
    using call_config [OF assms(1)] assms(2) by simp_all
  then show ?thesis
    using assms(3) box_at_least_twice_cutoff_cong [of s' s] by simp
qed

lemma run_periodic_needs_cutoff:
  assumes "run cs (s, h) = Inr (s', h')" and "periodic s \<longrightarrow> cutoff s"
  shows "periodic s' \<longrightarrow> cutoff s'"
  using assms
proof (induction cs arbitrary: s h)
  case Nil
  then show ?case by simp
next
  case (Cons c cs)
  from Cons.prems(1) obtain w1 where c: "call c (s, h) = Inr w1" and r: "run cs w1 = Inr (s', h')"
    by (rule run_Cons_Inr)
  obtain s1 h1 where w1: "w1 = (s1, h1)" by (cases w1)
  have "periodic s1 \<longrightarrow> cutoff s1"
    using call_periodic_needs_cutoff [OF c [unfolded w1] Cons.prems(2)] .
  then show ?case using Cons.IH [OF r [unfolded w1]] by simp
qed

lemma run_keeps_box_invariant:
  assumes "run cs (s, h) = Inr (s', h')" and "list_all (\<lambda>c. \<not> is_SetUseCutoff c) cs"
    and "periodic s \<longrightarrow> box_at_least_twice_cutoff s"
  shows "periodic s' \<longrightarrow> box_at_least_twice_cutoff s'"
  using assms
proof (induction cs arbitrary: s h)
  case Nil
  then show ?case by simp
next
  case (Cons c cs)
  from Cons.prems(1) obtain w1 where c: "call c (s, h) = Inr w1" and r: "run cs w1 = Inr (s', h')"
    by (rule run_Cons_Inr)
  obtain s1 h1 where w1: "w1 = (s1, h1)" by (cases w1)
  have nc: "\<not> is_SetUseCutoff c" and rest: "list_all (\<lambda>c. \<not> is_SetUseCutoff c) cs"
    using Cons.prems(2) by simp_all
  have "periodic s1 \<longrightarrow> box_at_least_twice_cutoff s1"
    using call_keeps_box_invariant [OF c [unfolded w1] nc Cons.prems(3)] .
  then show ?case using Cons.IH [OF r [unfolded w1] rest] by simp
qed

lemma no_cutoff_after_periodic_other:
  "(\<And>b. c \<noteq> SetPeriodic b) \<Longrightarrow>
   no_cutoff_after_periodic (c # cs) = no_cutoff_after_periodic cs"
  by (cases c) auto

lemma run_establishes_box_invariant:
  assumes "run cs (s, h) = Inr (s', h')" and "no_cutoff_after_periodic cs"
    and "\<not> periodic s"
  shows "periodic s' \<longrightarrow> box_at_least_twice_cutoff s'"
  using assms
proof (induction cs arbitrary: s h)
  case Nil
  then show ?case by simp
next
  case (Cons c cs)
  from Cons.prems(1) obtain w1 where c: "call c (s, h) = Inr w1" and r: "run cs w1 = Inr (s', h')"
    by (rule run_Cons_Inr)
  obtain s1 h1 where w1: "w1 = (s1, h1)" by (cases w1)
  show ?case
  proof (cases "\<exists>b. c = SetPeriodic b")
    case True
    then obtain b where cb: "c = SetPeriodic b" by blast
    have "box_at_least_twice_cutoff s1"
      using setPeriodic_establishes [OF call_SetPeriodic, of b s h s1 h1] c cb w1 by simp
    moreover have "list_all (\<lambda>c. \<not> is_SetUseCutoff c) cs"
      using Cons.prems(2) cb by simp
    ultimately show ?thesis
      using run_keeps_box_invariant [OF r [unfolded w1]] by simp
  next
    case False
    then have "\<not> periodic s1"
      using call_config [OF c [unfolded w1]] Cons.prems(3) by simp
    moreover have "no_cutoff_after_periodic cs"
      using Cons.prems(2) False by (simp add: no_cutoff_after_periodic_other)
    ultimately show ?thesis using Cons.IH [OF r [unfolded w1]] by simp
  qed
qed

text \<open>
  In every state reached from construction, an enabled cutoff has its distance set: the
  read of \<open>cutoffDistance\<close> in \<open>setPeriodic\<close> never meets an unset value there.
\<close>
lemma call_cutoff_distance_set:
  assumes "call c (s, h) = Inr (s', h')" and "cutoff s \<longrightarrow> cutoffDistance s \<noteq> None"
  shows "cutoff s' \<longrightarrow> cutoffDistance s' \<noteq> None"
proof (cases "is_SetUseCutoff c")
  case True
  then obtain d where "c = SetUseCutoff d" by (auto simp add: is_SetUseCutoff_iff)
  then show ?thesis using assms(1) by (auto simp add: setUseCutoff_def)
next
  case False
  then show ?thesis using call_config [OF assms(1)] assms(2) by simp
qed

lemma run_cutoff_distance_set:
  assumes "run cs (s, h) = Inr (s', h')" and "cutoff s \<longrightarrow> cutoffDistance s \<noteq> None"
  shows "cutoff s' \<longrightarrow> cutoffDistance s' \<noteq> None"
  using assms
proof (induction cs arbitrary: s h)
  case Nil
  then show ?case by simp
next
  case (Cons c cs)
  from Cons.prems(1) obtain w1 where c: "call c (s, h) = Inr w1" and r: "run cs w1 = Inr (s', h')"
    by (rule run_Cons_Inr)
  obtain s1 h1 where w1: "w1 = (s1, h1)" by (cases w1)
  have "cutoff s1 \<longrightarrow> cutoffDistance s1 \<noteq> None"
    using call_cutoff_distance_set [OF c [unfolded w1] Cons.prems(2)] .
  then show ?case using Cons.IH [OF r [unfolded w1]] by simp
qed

lemma reachable_cutoff_distance_set:
  assumes "run cs (new_GBVISoftcoreParameters n e1 e0, h) = Inr (s, h')" and "cutoff s"
  shows "\<exists>d. cutoffDistance s = Some d"
  using run_cutoff_distance_set [OF assms(1)] assms(2) by (simp add: new_fields)

text \<open>
  C1 (amended): in every state reached from construction by a sequence of calls that
  returns, periodic boundaries imply that the cutoff is enabled; and if no
  \<open>setUseCutoff\<close> comes after a \<open>setPeriodic\<close> in the sequence, periodic boundaries also
  imply that each of the three box dimensions is at least twice the cutoff distance.
\<close>
theorem periodic_requires_cutoff:
  "run cs (new_GBVISoftcoreParameters n e1 e0, h) = Inr (s, h') \<longrightarrow>
     (periodic s \<longrightarrow> cutoff s)
     \<and> (no_cutoff_after_periodic cs \<and> periodic s \<longrightarrow> box_at_least_twice_cutoff s)"
proof
  assume r: "run cs (new_GBVISoftcoreParameters n e1 e0, h) = Inr (s, h')"
  have a: "periodic s \<longrightarrow> cutoff s"
    using run_periodic_needs_cutoff [OF r] by (simp add: new_fields)
  have b: "no_cutoff_after_periodic cs \<and> periodic s \<longrightarrow> box_at_least_twice_cutoff s"
    using run_establishes_box_invariant [OF r] by (simp add: new_fields)
  show "(periodic s \<longrightarrow> cutoff s)
     \<and> (no_cutoff_after_periodic cs \<and> periodic s \<longrightarrow> box_at_least_twice_cutoff s)"
    using a b by blast
qed

lemma settled_example_run:
  "run settled_example (new_GBVISoftcoreParameters 3 1 78, empty_store) =
     Inr ((new_GBVISoftcoreParameters 3 1 78)
            \<lparr>cutoff := True, cutoffDistance := Some 5, quinticLowerLimitFactor := 1,
             periodic := True, periodicBoxSize := (Some 10, Some 11, Some 12)\<rparr>,
          empty_store)"
  by (simp add: settled_example_def setUseCutoff_def setQuinticLowerLimitFactor_def
      setPeriodic_def new_fields)

theorem periodic_requires_cutoff_witness:
  "\<exists>s h'. run settled_example (new_GBVISoftcoreParameters 3 1 78, empty_store) = Inr (s, h')
     \<and> periodic s \<and> cutoff s \<and> box_at_least_twice_cutoff s"
proof -
  let ?s = "(new_GBVISoftcoreParameters 3 1 78)
            \<lparr>cutoff := True, cutoffDistance := Some 5, quinticLowerLimitFactor := 1,
             periodic := True, periodicBoxSize := (Some 10, Some 11, Some 12)\<rparr>"
  have p: "periodic ?s" by simp
  have n: "no_cutoff_after_periodic settled_example" by (simp add: settled_example_def)
  have "cutoff ?s \<and> box_at_least_twice_cutoff ?s"
    using periodic_requires_cutoff [of settled_example 3 1 78 empty_store ?s empty_store]
      settled_example_run p n
    by blast
  then show ?thesis using settled_example_run p by blast
qed

text \<open>
  C1 as stated fails: \<open>setUseCutoff 5\<close>, \<open>setPeriodic [10, 10, 10]\<close>, \<open>setUseCutoff 100\<close>
  is a sequence of calls that returns; it leaves periodic boundaries enabled with the
  box \<open>[10, 10, 10]\<close> and the cutoff distance 100, and \<open>10 < 2 * 100\<close>.
\<close>
theorem late_cutoff_breaks_box_invariant:
  "\<not> isl late_cutoff_example
   \<and> periodic (fst (projr late_cutoff_example))
   \<and> cutoffDistance (fst (projr late_cutoff_example)) = Some 100
   \<and> periodicBoxSize (fst (projr late_cutoff_example)) = (Some 10, Some 10, Some 10)
   \<and> \<not> box_at_least_twice_cutoff (fst (projr late_cutoff_example))"
proof -
  have r: "late_cutoff_example =
     Inr ((new_GBVISoftcoreParameters 3 1 78)
            \<lparr>cutoff := True, cutoffDistance := Some 100,
             periodic := True, periodicBoxSize := (Some 10, Some 10, Some 10)\<rparr>,
          empty_store)"
    by (simp add: late_cutoff_example_def setUseCutoff_def setPeriodic_def new_fields)
  show ?thesis by (simp add: r box_at_least_twice_cutoff_def)
qed

end
